theory Spec2Isabelle
  imports Main "HOL-Library.Word"
begin

section \<open>Values of the plugin framework\<close>

text \<open>
  The framework's \<open>types.String\<close>, \<open>types.Bool\<close>, \<open>types.Int64\<close>, \<open>types.Map\<close> and
  \<open>types.List\<close> each carry a state (null, unknown, known) beside the value.  The accessors
  \<open>ValueString\<close>, \<open>ValueBool\<close> and \<open>ValueInt64\<close> return the zero value of the Go type when
  the value is null or unknown.
\<close>

datatype 'a tfval = TfNull | TfUnknown | TfValue 'a

type_synonym int64 = "64 word"
type_synonym tfstring = "string tfval"
type_synonym tfbool = "bool tfval"
type_synonym tfint64 = "int64 tfval"

text \<open>
  A Go \<open>map[string]T\<close> is kept as an association list: the entries in the order in which a
  \<open>range\<close> loop over the map visits them (Go leaves that order open, so every order is a
  possible input).  The keys of a Go map are pairwise distinct.
\<close>

type_synonym 'v gomap = "(string \<times> 'v) list"
type_synonym tfmap = "tfstring gomap tfval"
type_synonym tflist = "tfstring list tfval"

fun IsNull :: "'a tfval \<Rightarrow> bool" where
  "IsNull TfNull = True"
| "IsNull _ = False"

fun IsUnknown :: "'a tfval \<Rightarrow> bool" where
  "IsUnknown TfUnknown = True"
| "IsUnknown _ = False"

fun ValueString :: "tfstring \<Rightarrow> string" where
  "ValueString (TfValue s) = s"
| "ValueString _ = []"

fun ValueBool :: "tfbool \<Rightarrow> bool" where
  "ValueBool (TfValue b) = b"
| "ValueBool _ = False"

fun ValueInt64 :: "tfint64 \<Rightarrow> int64" where
  "ValueInt64 (TfValue n) = n"
| "ValueInt64 _ = 0"

fun Elements :: "tfmap \<Rightarrow> tfstring gomap" where
  "Elements (TfValue m) = m"
| "Elements _ = []"

text \<open>The struct \<open>SpaceResourceModel\<close>, field by field.\<close>

record SpaceResourceModel =
  ID :: tfstring
  Name :: tfstring
  Private :: tfbool
  SDK :: tfstring
  Template :: tfstring
  Secrets :: tfmap
  Variables :: tfmap
  Hardware :: tfstring
  Host :: tfstring
  Storage :: tfstring
  SleepTime :: tfint64
  Author :: tfstring
  LastModified :: tfstring
  Likes :: tfint64
  Tags :: tflist

section \<open>The remote API as seen by the resource\<close>

datatype http_method = GET | POST | PUT | DELETE

record request =
  verb :: http_method
  url :: string
  body :: string

definition Request :: "http_method \<Rightarrow> string \<Rightarrow> string \<Rightarrow> request" where
  "Request m u b = \<lparr>verb = m, url = u, body = b\<rparr>"

text \<open>
  A decoded JSON value as \<open>encoding/json\<close> hands it out for an \<open>interface{}\<close> target.  A
  number is kept as its literal; the resource never looks inside one.  An object is a Go
  map (see \<open>gomap\<close>).
\<close>

datatype json =
    JNull
  | JBool bool
  | JNumber string
  | JString string
  | JArray "json list"
  | JObject "(string \<times> json) list"

text \<open>
  The body of a response is described by what reading and decoding it gives: reading it
  fails, it is no JSON text, or it is the JSON value shown.
\<close>

datatype resp_body = BodyReadError | BodyNotJSON | BodyJSON json

text \<open>
  What one call on \<open>r.client\<close> gives back: \<open>TransportError\<close> stands for \<open>err != nil\<close>
  (from \<open>http.NewRequest\<close>, \<open>client.Do\<close>, \<open>client.Post\<close> or \<open>client.Get\<close>, which the
  source reports alike), \<open>Response status body\<close> for a response.
\<close>

datatype http_result = TransportError | Response nat resp_body

type_synonym exchange = "request \<times> http_result"

text \<open>
  The injected client is an arbitrary function of the exchanges so far and the request: the
  remote side may answer the same request differently at different times.
\<close>

type_synonym client = "exchange list \<Rightarrow> request \<Rightarrow> http_result"

definition send :: "client \<Rightarrow> exchange list \<Rightarrow> request \<Rightarrow> http_result \<times> exchange list" where
  "send cl tr req = (cl tr req, tr @ [(req, cl tr req)])"

definition StatusOK :: nat where
  "StatusOK = 200"

text \<open>
  \<open>json.NewDecoder(body).Decode(&m)\<close> with \<open>m\<close> of type \<open>map[string]interface{}\<close>: an object
  gives its map, \<open>null\<close> leaves the map nil (empty), everything else is an error.
\<close>

fun decode_object :: "resp_body \<Rightarrow> json gomap option" where
  "decode_object (BodyJSON (JObject kvs)) = Some kvs"
| "decode_object (BodyJSON JNull) = Some []"
| "decode_object _ = None"

section \<open>Diagnostics\<close>

datatype action =
    CreateSpace | AddSecret | AddVariable | ReadSpace
  | RenameSpace | UpdateVisibility
  | RetrieveSecrets | DeleteSecret
  | RetrieveVariables | DeleteVariable
  | UpdateHardware | UpdateStorage | UpdateSleepTime
  | DeleteSpace

text \<open>
  One constructor for each summary the source passes to \<open>Diagnostics.AddError\<close>, with the
  operation its detail names and the status code where the detail prints one.
\<close>

datatype diag =
    ClientError action
  | APIError action nat
  | APIResponseError
  | JSONDecodeError action
  | InvalidResponse

section \<open>Formatting of request bodies and addresses\<close>

text \<open>The verbs \<open>%t\<close> and \<open>%d\<close> of \<open>fmt.Sprintf\<close>; \<open>%s\<close> copies the string as it is.\<close>

definition fmt_bool :: "bool \<Rightarrow> string" where
  "fmt_bool b = (if b then ''true'' else ''false'')"

definition digit_char :: "nat \<Rightarrow> char" where
  "digit_char d = char_of (48 + d)"

fun fmt_nat :: "nat \<Rightarrow> string" where
  "fmt_nat n = (if n < 10 then [digit_char n] else fmt_nat (n div 10) @ [digit_char (n mod 10)])"

declare fmt_nat.simps [simp del]

definition fmt_int :: "int \<Rightarrow> string" where
  "fmt_int i = (if i < 0 then CHR ''-'' # fmt_nat (nat (- i)) else fmt_nat (nat i))"

definition fmt_int64 :: "int64 \<Rightarrow> string" where
  "fmt_int64 w = fmt_int (sint w)"

text \<open>\<open>strings.Split(s, "/")\<close>; the result is never empty, so index 0 exists.\<close>

fun Split :: "string \<Rightarrow> char \<Rightarrow> string list" where
  "Split [] sep = [[]]"
| "Split (c # cs) sep =
     (if c = sep then [] # Split cs sep
      else (case Split cs sep of [] \<Rightarrow> [[c]] | x # xs \<Rightarrow> (c # x) # xs))"

definition create_body ::
  "string \<Rightarrow> bool \<Rightarrow> string \<Rightarrow> string \<Rightarrow> string \<Rightarrow> string \<Rightarrow> int64 \<Rightarrow> string" where
  \<open>create_body name private sdk template hardware storage sleepTime =
     ''{"type": "space", "name": "'' @ name @ ''", "private": '' @ fmt_bool private @
     '', "sdk": "'' @ sdk @ ''", "template": "'' @ template @ ''", "hardware": "'' @ hardware @
     ''", "storage": "'' @ storage @ ''", "sleepTime": '' @ fmt_int64 sleepTime @ ''}''\<close>

definition entry_body :: "string \<Rightarrow> string \<Rightarrow> string" where
  \<open>entry_body key val = ''{"key": "'' @ key @ ''", "value": "'' @ val @ ''"}''\<close>

definition delete_key_body :: "string \<Rightarrow> string" where
  \<open>delete_key_body key = ''{"key": "'' @ key @ ''"}''\<close>

definition move_body :: "string \<Rightarrow> string \<Rightarrow> string" where
  \<open>move_body fromRepo toRepo =
     ''{"fromRepo": "'' @ fromRepo @ ''", "toRepo": "'' @ toRepo @ ''", "type": "space"}''\<close>

definition private_body :: "bool \<Rightarrow> string" where
  \<open>private_body private = ''{"private": '' @ fmt_bool private @ ''}''\<close>

definition hardware_body :: "string \<Rightarrow> string" where
  \<open>hardware_body flavor = ''{"flavor": "'' @ flavor @ ''"}''\<close>

definition storage_body :: "string \<Rightarrow> string" where
  \<open>storage_body tier = ''{"tier": "'' @ tier @ ''"}''\<close>

definition sleeptime_body :: "int64 \<Rightarrow> string" where
  \<open>sleeptime_body seconds = ''{"seconds": '' @ fmt_int64 seconds @ ''}''\<close>


definition create_url :: string where
  "create_url = ''https://huggingface.co/api/repos/create''"

definition move_url :: string where
  "move_url = ''https://huggingface.co/api/repos/move''"


text \<open>\<open>fmt.Sprintf("https://huggingface.co/api/spaces/%s/<what>", id)\<close>.\<close>

definition space_url :: "string \<Rightarrow> string \<Rightarrow> string" where
  "space_url ident what = ''https://huggingface.co/api/spaces/'' @ ident @ ''/'' @ what"

section \<open>Update\<close>

text \<open>
  A block of \<open>Update\<close> takes the exchanges so far and the working copy \<open>state\<close>, and gives
  the exchanges after it with either the diagnostic it returned on or the working copy
  after it.
\<close>

type_synonym step_result = "exchange list \<times> (diag + SpaceResourceModel)"

text \<open>
  Line 368: \<open>fmt.Sprintf("%s/%s", strings.Split(id, "/")[0], name)\<close>.  \<open>Split\<close> gives at
  least one piece, so \<open>hd\<close> is the piece at index 0.
\<close>

definition move_target :: "string \<Rightarrow> string \<Rightarrow> string" where
  "move_target ident name = hd (Split ident CHR ''/'') @ ''/'' @ name"

text \<open>The requests of the two loops over a sub-collection.\<close>

definition delete_request :: "string \<Rightarrow> string \<Rightarrow> request" where
  "delete_request u key = Request DELETE u (delete_key_body key)"

definition add_request :: "string \<Rightarrow> string \<times> tfstring \<Rightarrow> request" where
  "add_request u kv = Request POST u (entry_body (fst kv) (ValueString (snd kv)))"

text \<open>Lines 363 to 396: the rename.\<close>

definition rename_step ::
  "client \<Rightarrow> SpaceResourceModel \<Rightarrow> exchange list \<Rightarrow> SpaceResourceModel \<Rightarrow> step_result" where
  "rename_step cl data tr state =
     (if ValueString (Name state) \<noteq> ValueString (Name data) then
        (let fromRepo = ValueString (ID state);
             toRepo = move_target (ValueString (ID state)) (ValueString (Name data));
             (res, tr') = send cl tr (Request POST move_url (move_body fromRepo toRepo))
         in case res of
              TransportError \<Rightarrow> (tr', Inl (ClientError RenameSpace))
            | Response status rbody \<Rightarrow>
                if rbody = BodyReadError then (tr', Inl APIResponseError)
                else if status \<noteq> StatusOK then (tr', Inl (APIError RenameSpace status))
                else (tr', Inr (state\<lparr>ID := TfValue toRepo, Name := Name data\<rparr>)))
      else (tr, Inr state))"

text \<open>Lines 398 to 432: the visibility.  The block assigns nothing to \<open>state\<close>.\<close>

definition visibility_step ::
  "client \<Rightarrow> SpaceResourceModel \<Rightarrow> exchange list \<Rightarrow> SpaceResourceModel \<Rightarrow> step_result" where
  "visibility_step cl data tr state =
     (if Private state \<noteq> Private data then
        (let (res, tr') = send cl tr
               (Request PUT (space_url (ValueString (ID data)) ''settings'')
                  (private_body (ValueBool (Private data))))
         in case res of
              TransportError \<Rightarrow> (tr', Inl (ClientError UpdateVisibility))
            | Response status rbody \<Rightarrow>
                if rbody = BodyReadError then (tr', Inl APIResponseError)
                else if status \<noteq> StatusOK then (tr', Inl (APIError UpdateVisibility status))
                else (tr', Inr state))
      else (tr, Inr state))"

text \<open>
  The loop over the keys of the fetched collection (lines 453 to 474 and 518 to 539), for
  the address \<open>u\<close> and the operation \<open>a\<close> its diagnostics name.
\<close>

fun delete_loop ::
  "client \<Rightarrow> string \<Rightarrow> action \<Rightarrow> exchange list \<Rightarrow> string list \<Rightarrow> exchange list \<times> diag option" where
  "delete_loop cl u a tr [] = (tr, None)"
| "delete_loop cl u a tr (key # keys) =
     (let (res, tr') = send cl tr (delete_request u key)
      in case res of
           TransportError \<Rightarrow> (tr', Some (ClientError a))
         | Response status rbody \<Rightarrow>
             if status \<noteq> StatusOK then (tr', Some (APIError a status))
             else delete_loop cl u a tr' keys)"

text \<open>
  The loop over the desired entries (lines 480 to 495 and 545 to 560); \<open>acc\<close> is the map
  \<open>stateSecretsMap\<close> (\<open>stateVariablesMap\<close>) the loop fills.
\<close>

fun add_loop ::
  "client \<Rightarrow> string \<Rightarrow> action \<Rightarrow> exchange list \<Rightarrow> tfstring gomap \<Rightarrow> tfstring gomap
     \<Rightarrow> exchange list \<times> (diag + tfstring gomap)" where
  "add_loop cl u a tr [] acc = (tr, Inr acc)"
| "add_loop cl u a tr ((key, val) # kvs) acc =
     (let (res, tr') = send cl tr (add_request u (key, val))
      in case res of
           TransportError \<Rightarrow> (tr', Inl (ClientError a))
         | Response status rbody \<Rightarrow>
             if status \<noteq> StatusOK then (tr', Inl (APIError a status))
             else add_loop cl u a tr' kvs (acc @ [(key, val)]))"

text \<open>
  The fetch and the deletions (lines 437 to 475 and 502 to 540): \<open>ra\<close> names the fetch in
  diagnostics, \<open>da\<close> the deletion.
\<close>

definition clear_collection ::
  "client \<Rightarrow> string \<Rightarrow> action \<Rightarrow> action \<Rightarrow> exchange list \<Rightarrow> exchange list \<times> diag option" where
  "clear_collection cl u ra da tr =
     (let (res, tr') = send cl tr (Request GET u [])
      in case res of
           TransportError \<Rightarrow> (tr', Some (ClientError ra))
         | Response status rbody \<Rightarrow>
             if status = StatusOK then
               (case decode_object rbody of
                  None \<Rightarrow> (tr', Some (JSONDecodeError ra))
                | Some existing \<Rightarrow> delete_loop cl u da tr' (map fst existing))
             else (tr', None))"

text \<open>
  The replacement of a sub-collection by the desired entries, as both blocks do it: the
  fetch and the deletions, then the additions (\<open>aa\<close> names an addition in diagnostics).
  The result is the filled map.
\<close>

definition replace_collection ::
  "client \<Rightarrow> string \<Rightarrow> action \<Rightarrow> action \<Rightarrow> action \<Rightarrow> exchange list \<Rightarrow> tfstring gomap
     \<Rightarrow> exchange list \<times> (diag + tfstring gomap)" where
  "replace_collection cl u ra da aa tr desired =
     (case clear_collection cl u ra da tr of
        (tr', Some d) \<Rightarrow> (tr', Inl d)
      | (tr', None) \<Rightarrow> add_loop cl u aa tr' desired [])"

text \<open>Lines 434 to 497: the secrets.\<close>

definition secrets_step ::
  "client \<Rightarrow> SpaceResourceModel \<Rightarrow> exchange list \<Rightarrow> SpaceResourceModel \<Rightarrow> step_result" where
  "secrets_step cl data tr state =
     (if \<not> IsNull (Secrets data) \<and> \<not> IsUnknown (Secrets data) then
        (case replace_collection cl (space_url (ValueString (ID data)) ''secrets'')
                RetrieveSecrets DeleteSecret AddSecret tr (Elements (Secrets data)) of
           (tr', Inl d) \<Rightarrow> (tr', Inl d)
         | (tr', Inr stateSecretsMap) \<Rightarrow>
             (tr', Inr (state\<lparr>Secrets := TfValue stateSecretsMap\<rparr>)))
      else (tr, Inr state))"

text \<open>Lines 499 to 563: the variables.\<close>

definition variables_step ::
  "client \<Rightarrow> SpaceResourceModel \<Rightarrow> exchange list \<Rightarrow> SpaceResourceModel \<Rightarrow> step_result" where
  "variables_step cl data tr state =
     (if \<not> IsNull (Variables data) \<and> \<not> IsUnknown (Variables data) then
        (case replace_collection cl (space_url (ValueString (ID data)) ''variables'')
                RetrieveVariables DeleteVariable AddVariable tr (Elements (Variables data)) of
           (tr', Inl d) \<Rightarrow> (tr', Inl d)
         | (tr', Inr stateVariablesMap) \<Rightarrow>
             (tr', Inr (state\<lparr>Variables := TfValue stateVariablesMap\<rparr>)))
      else (tr, Inr state))"

text \<open>
  The shape shared by the last three blocks: a POST, the status check, and the decoding of
  the response into a map that is not used further.
\<close>

definition post_and_decode ::
  "client \<Rightarrow> exchange list \<Rightarrow> request \<Rightarrow> action \<Rightarrow> exchange list \<times> diag option" where
  "post_and_decode cl tr req a =
     (let (res, tr') = send cl tr req
      in case res of
           TransportError \<Rightarrow> (tr', Some (ClientError a))
         | Response status rbody \<Rightarrow>
             if status \<noteq> StatusOK then (tr', Some (APIError a status))
             else (case decode_object rbody of
                     None \<Rightarrow> (tr', Some (JSONDecodeError a))
                   | Some m \<Rightarrow> (tr', None)))"

text \<open>Lines 565 to 590: the hardware.\<close>

definition hardware_step ::
  "client \<Rightarrow> SpaceResourceModel \<Rightarrow> exchange list \<Rightarrow> SpaceResourceModel \<Rightarrow> step_result" where
  "hardware_step cl data tr state =
     (if ValueString (Hardware state) \<noteq> ValueString (Hardware data) then
        (case post_and_decode cl tr
                (Request POST (space_url (ValueString (ID data)) ''hardware'')
                   (hardware_body (ValueString (Hardware data)))) UpdateHardware of
           (tr', Some d) \<Rightarrow> (tr', Inl d)
         | (tr', None) \<Rightarrow> (tr', Inr (state\<lparr>Hardware := Hardware data\<rparr>)))
      else (tr, Inr state))"

text \<open>Lines 592 to 617: the storage.\<close>

definition storage_step ::
  "client \<Rightarrow> SpaceResourceModel \<Rightarrow> exchange list \<Rightarrow> SpaceResourceModel \<Rightarrow> step_result" where
  "storage_step cl data tr state =
     (if ValueString (Storage state) \<noteq> ValueString (Storage data) then
        (case post_and_decode cl tr
                (Request POST (space_url (ValueString (ID data)) ''storage'')
                   (storage_body (ValueString (Storage data)))) UpdateStorage of
           (tr', Some d) \<Rightarrow> (tr', Inl d)
         | (tr', None) \<Rightarrow> (tr', Inr (state\<lparr>Storage := Storage data\<rparr>)))
      else (tr, Inr state))"

text \<open>Lines 619 to 644: the sleep time.\<close>

definition sleeptime_step ::
  "client \<Rightarrow> SpaceResourceModel \<Rightarrow> exchange list \<Rightarrow> SpaceResourceModel \<Rightarrow> step_result" where
  "sleeptime_step cl data tr state =
     (if ValueInt64 (SleepTime state) \<noteq> ValueInt64 (SleepTime data) then
        (case post_and_decode cl tr
                (Request POST (space_url (ValueString (ID data)) ''sleeptime'')
                   (sleeptime_body (ValueInt64 (SleepTime data)))) UpdateSleepTime of
           (tr', Some d) \<Rightarrow> (tr', Inl d)
         | (tr', None) \<Rightarrow> (tr', Inr (state\<lparr>SleepTime := SleepTime data\<rparr>)))
      else (tr, Inr state))"

text \<open>
  A run of \<open>Update\<close> up to some point: the exchanges so far, the local variable \<open>state\<close>,
  and the diagnostic if the function has returned on one.  \<open>and_then\<close> runs the next block
  unless the function has already returned.
\<close>

type_synonym run = "exchange list \<times> SpaceResourceModel \<times> diag option"

definition and_then ::
  "run \<Rightarrow> (exchange list \<Rightarrow> SpaceResourceModel \<Rightarrow> step_result) \<Rightarrow> run" where
  "and_then r f =
     (case r of
        (tr, state, Some d) \<Rightarrow> (tr, state, Some d)
      | (tr, state, None) \<Rightarrow>
          (case f tr state of
             (tr', Inl d) \<Rightarrow> (tr', state, Some d)
           | (tr', Inr state') \<Rightarrow> (tr', state', None)))"

text \<open>
  What \<open>Update\<close> leaves behind: the exchanges with the remote side in order, the
  diagnostic, the local variable \<open>state\<close> as it stood when the function returned, and the
  value given to \<open>resp.State.Set\<close> (line 646), if that line was reached.
\<close>

record update_result =
  calls :: "exchange list"
  diagnostic :: "diag option"
  working :: SpaceResourceModel
  resp_state :: "SpaceResourceModel option"

definition Update_run :: "client \<Rightarrow> SpaceResourceModel \<Rightarrow> SpaceResourceModel \<Rightarrow> run" where
  "Update_run cl data state =
     and_then (and_then (and_then (and_then (and_then (and_then (and_then
       ([], state, None)
       (rename_step cl data))
       (visibility_step cl data))
       (secrets_step cl data))
       (variables_step cl data))
       (hardware_step cl data))
       (storage_step cl data))
       (sleeptime_step cl data)"

text \<open>
  \<open>Update\<close>, from the point where the plan \<open>data\<close> and the prior state \<open>state\<close> have been
  read without diagnostics.
\<close>

definition Update :: "client \<Rightarrow> SpaceResourceModel \<Rightarrow> SpaceResourceModel \<Rightarrow> update_result" where
  "Update cl data state =
     (case Update_run cl data state of
        (tr, st, d) \<Rightarrow>
          \<lparr>calls = tr, diagnostic = d, working = st,
           resp_state = (case d of None \<Rightarrow> Some st | Some e \<Rightarrow> None)\<rparr>)"

section \<open>Create and Delete\<close>

text \<open>
  The loops of \<open>Create\<close> over the desired secrets and variables (lines 213 to 227 and 233
  to 247): one POST for each entry, stopping at the first failure.
\<close>

fun post_entries ::
  "client \<Rightarrow> string \<Rightarrow> action \<Rightarrow> exchange list \<Rightarrow> tfstring gomap \<Rightarrow> exchange list \<times> diag option" where
  "post_entries cl u a tr [] = (tr, None)"
| "post_entries cl u a tr ((key, val) # kvs) =
     (let (res, tr') = send cl tr (add_request u (key, val))
      in case res of
           TransportError \<Rightarrow> (tr', Some (ClientError a))
         | Response status rbody \<Rightarrow>
             if status \<noteq> StatusOK then (tr', Some (APIError a status))
             else post_entries cl u a tr' kvs)"

text \<open>
  What \<open>Create\<close> and \<open>Delete\<close> leave behind: the exchanges, the diagnostic, and the value
  given to \<open>resp.State.Set\<close> (line 250) if that line was reached.
\<close>

record lifecycle_result =
  exchanges :: "exchange list"
  failure :: "diag option"
  new_state :: "SpaceResourceModel option"

definition failed :: "exchange list \<Rightarrow> diag \<Rightarrow> lifecycle_result" where
  "failed tr d = \<lparr>exchanges = tr, failure = Some d, new_state = None\<rparr>"

text \<open>Lines 210 to 250 of \<open>Create\<close>, after \<open>data.ID\<close> has been assigned.\<close>

definition create_entries :: "client \<Rightarrow> exchange list \<Rightarrow> SpaceResourceModel \<Rightarrow> lifecycle_result" where
  "create_entries cl tr data =
     (case (if \<not> IsNull (Secrets data) \<and> \<not> IsUnknown (Secrets data)
            then post_entries cl (space_url (ValueString (ID data)) ''secrets'') AddSecret tr
                   (Elements (Secrets data))
            else (tr, None)) of
        (tr', Some d) \<Rightarrow> failed tr' d
      | (tr', None) \<Rightarrow>
          (case (if \<not> IsNull (Variables data) \<and> \<not> IsUnknown (Variables data)
                 then post_entries cl (space_url (ValueString (ID data)) ''variables'') AddVariable tr'
                        (Elements (Variables data))
                 else (tr', None)) of
             (tr'', Some d) \<Rightarrow> failed tr'' d
           | (tr'', None) \<Rightarrow> \<lparr>exchanges = tr'', failure = None, new_state = Some data\<rparr>))"

text \<open>
  \<open>responseData["name"].(string)\<close> (line 202): the name, if the map has the key with a
  string value.
\<close>

fun name_of_response :: "json gomap \<Rightarrow> string option" where
  "name_of_response responseData =
     (case map_of responseData ''name'' of
        Some (JString spaceName) \<Rightarrow> Some spaceName
      | _ \<Rightarrow> None)"

text \<open>Lines 169 to 181: the creation request.\<close>

definition create_request :: "SpaceResourceModel \<Rightarrow> request" where
  "create_request data =
     Request POST create_url
       (create_body (ValueString (Name data)) (ValueBool (Private data))
          (ValueString (SDK data)) (ValueString (Template data))
          (ValueString (Hardware data)) (ValueString (Storage data))
          (ValueInt64 (SleepTime data)))"

text \<open>\<open>Create\<close>, from the point where the plan \<open>data\<close> has been read without diagnostics.\<close>

definition Create :: "client \<Rightarrow> SpaceResourceModel \<Rightarrow> lifecycle_result" where
  "Create cl data =
     (let (res, tr) = send cl [] (create_request data)
      in case res of
           TransportError \<Rightarrow> failed tr (ClientError CreateSpace)
         | Response status rbody \<Rightarrow>
             if status \<noteq> StatusOK then failed tr (APIError CreateSpace status)
             else
               (case decode_object rbody of
                  None \<Rightarrow> failed tr (JSONDecodeError CreateSpace)
                | Some responseData \<Rightarrow>
                    (case name_of_response responseData of
                       None \<Rightarrow> failed tr InvalidResponse
                     | Some spaceName \<Rightarrow>
                         create_entries cl tr (data\<lparr>ID := TfValue spaceName\<rparr>))))"


section \<open>Reading a request body back\<close>





definition is_digit :: "char \<Rightarrow> bool" where
  "is_digit c \<longleftrightarrow> 48 \<le> (of_char c :: nat) \<and> (of_char c :: nat) \<le> 57"








definition nat_of_digits :: "string \<Rightarrow> nat" where
  "nat_of_digits ds = foldl (\<lambda>n c. 10 * n + (of_char c - 48)) 0 ds"

definition valid_digits :: "string \<Rightarrow> bool" where
  "valid_digits ds \<longleftrightarrow>
     ds \<noteq> [] \<and> list_all is_digit ds \<and> (hd ds = CHR ''0'' \<longrightarrow> length ds = 1)"

definition int_of_literal :: "string \<Rightarrow> int option" where
  "int_of_literal lit =
     (case lit of
        [] \<Rightarrow> None
      | c # ds \<Rightarrow>
          if c = CHR ''-''
          then (if valid_digits ds then Some (- int (nat_of_digits ds)) else None)
          else (if valid_digits lit then Some (int (nat_of_digits lit)) else None))"






section \<open>Auxiliary definitions for the statements\<close>

text \<open>
  What the lemmas below say about the calls of one sub-collection block: \<open>res\<close> answers
  the fetch, \<open>dels\<close> and \<open>adds\<close> are the exchanges of the two loops, and \<open>d\<close> is the
  diagnostic the block ends with.
\<close>

definition collection_segment ::
  "string \<Rightarrow> action \<Rightarrow> tfstring gomap \<Rightarrow> http_result \<Rightarrow> exchange list \<Rightarrow> exchange list
     \<Rightarrow> diag option \<Rightarrow> bool" where
  "collection_segment u ra desired res dels adds d \<longleftrightarrow>
     (\<forall>e\<in>set dels. \<exists>k. fst e = delete_request u k) \<and>
     (\<forall>e\<in>set adds. \<exists>kv. fst e = add_request u kv) \<and>
     (dels \<noteq> [] \<longrightarrow> (\<exists>b. res = Response StatusOK b)) \<and>
     (res = TransportError \<longrightarrow> d = Some (ClientError ra) \<and> adds = []) \<and>
     (\<forall>s b. res = Response s b \<and> s \<noteq> StatusOK \<longrightarrow>
        (desired \<noteq> [] \<longrightarrow> adds \<noteq> [] \<and> fst (hd adds) = add_request u (hd desired))) \<and>
     (d = None \<longrightarrow> map fst adds = map (add_request u) desired \<and>
        (\<forall>e\<in>set (dels @ adds). \<exists>b. snd e = Response StatusOK b) \<and>
        (\<forall>b listed. res = Response StatusOK b \<and> decode_object b = Some listed \<longrightarrow>
           map fst dels = map (delete_request u) (map fst listed)))"

subsection \<open>Example clients and configurations\<close>

text \<open>A remote side that answers every request with 200 and an empty JSON object.\<close>

definition ok_client :: client where
  "ok_client tr req = Response 200 (BodyJSON (JObject []))"

text \<open>
  A prior state of a public space, with both sub-collections unmanaged, and plans that
  differ from it in the fields their names say.
\<close>

definition space0 :: SpaceResourceModel where
  "space0 = \<lparr>ID = TfValue ''alice/demo'', Name = TfValue ''demo'', Private = TfValue False,
     SDK = TfValue ''gradio'', Template = TfNull, Secrets = TfNull, Variables = TfNull,
     Hardware = TfValue ''cpu-basic'', Host = TfNull, Storage = TfValue ''small'',
     SleepTime = TfValue 3600, Author = TfNull, LastModified = TfNull, Likes = TfNull,
     Tags = TfNull\<rparr>"


definition plan_rename_hardware :: SpaceResourceModel where
  "plan_rename_hardware = space0\<lparr>Name := TfValue ''renamed'', Hardware := TfValue ''t4-small''\<rparr>"

definition plan_private :: SpaceResourceModel where
  "plan_private = space0\<lparr>Private := TfValue True\<rparr>"

definition plan_sdk :: SpaceResourceModel where
  "plan_sdk = space0\<lparr>SDK := TfValue ''docker'', Template := TfValue ''blank''\<rparr>"

text \<open>
  The example of the specification: the remote secrets are \<open>a\<close> and \<open>b\<close>, the desired
  ones \<open>b\<close> and \<open>c\<close>.
\<close>

definition listing_client :: client where
  "listing_client tr req =
     (if verb req = GET
      then Response 200 (BodyJSON (JObject [(''a'', JString ''1''), (''b'', JString ''2'')]))
      else Response 200 (BodyJSON (JObject [])))"

definition space_ab :: SpaceResourceModel where
  "space_ab = space0\<lparr>Secrets := TfValue [(''a'', TfValue ''1''), (''b'', TfValue ''2'')]\<rparr>"

definition plan_bc :: SpaceResourceModel where
  "plan_bc = space0\<lparr>Secrets := TfValue [(''b'', TfValue ''2''), (''c'', TfValue ''3'')]\<rparr>"

text \<open>Remote sides that refuse the hardware call, or the listing of a sub-collection.\<close>

definition hardware_down :: client where
  "hardware_down tr req =
     (if url req = ''https://huggingface.co/api/spaces/alice/demo/hardware''
      then Response 500 BodyNotJSON
      else Response 200 (BodyJSON (JObject [])))"


text \<open>A remote side whose answers carry a name, and a plan for a space yet to be created.\<close>

definition naming_client :: client where
  "naming_client tr req = Response 200 (BodyJSON (JObject [(''name'', JString ''alice/demo'')]))"

definition plan_new :: SpaceResourceModel where
  "plan_new = space0\<lparr>ID := TfUnknown\<rparr>"



section \<open>Properties of the blocks of Update\<close>

lemma Split_not_Nil: "Split s sep \<noteq> []"
  by (induction s) (auto split: list.splits)

lemma url_Request [simp]: "url (Request m u b) = u"
  and verb_Request [simp]: "verb (Request m u b) = m"
  and body_Request [simp]: "body (Request m u b) = b"
  by (simp_all add: Request_def)

lemma delete_loop_shape:
  "delete_loop cl u a tr keys = (tr', d) \<Longrightarrow>
     \<exists>new. tr' = tr @ new \<and>
       map fst new = map (delete_request u) (take (length new) keys) \<and>
       length new \<le> length keys \<and>
       (d = None \<longrightarrow> length new = length keys \<and> (\<forall>e\<in>set new. \<exists>b. snd e = Response StatusOK b))"
proof (induction keys arbitrary: tr)
  case Nil
  then show ?case by simp
next
  case (Cons key keys)
  let ?req = "delete_request u key"
  let ?tr1 = "tr @ [(?req, cl tr ?req)]"
  show ?case
  proof (cases "\<exists>b. cl tr ?req = Response StatusOK b")
    case True
    then obtain b where b: "cl tr ?req = Response StatusOK b" by blast
    with Cons.prems have "delete_loop cl u a ?tr1 keys = (tr', d)"
      by (simp add: send_def)
    from Cons.IH [OF this] obtain new where
      new: "tr' = ?tr1 @ new" "map fst new = map (delete_request u) (take (length new) keys)"
        "length new \<le> length keys"
        "d = None \<longrightarrow> length new = length keys \<and> (\<forall>e\<in>set new. \<exists>b. snd e = Response StatusOK b)"
      by blast
    show ?thesis
      by (rule exI [of _ "(?req, cl tr ?req) # new"]) (use new b in simp)
  next
    case False
    with Cons.prems have "tr' = ?tr1" "d \<noteq> None"
      by (auto simp: send_def split: http_result.splits if_splits)
    then show ?thesis
      by (auto intro!: exI [of _ "[(?req, cl tr ?req)]"])
  qed
qed

lemma add_loop_shape:
  "add_loop cl u a tr kvs acc = (tr', x) \<Longrightarrow>
     \<exists>new. tr' = tr @ new \<and>
       map fst new = map (add_request u) (take (length new) kvs) \<and>
       length new \<le> length kvs \<and>
       (kvs \<noteq> [] \<longrightarrow> new \<noteq> []) \<and>
       (\<forall>m. x = Inr m \<longrightarrow> m = acc @ kvs \<and> length new = length kvs \<and>
          (\<forall>e\<in>set new. \<exists>b. snd e = Response StatusOK b))"
proof (induction kvs arbitrary: tr acc)
  case Nil
  then show ?case by auto
next
  case (Cons kv kvs)
  obtain key val where kv: "kv = (key, val)" by (cases kv)
  let ?req = "add_request u kv"
  let ?tr1 = "tr @ [(?req, cl tr ?req)]"
  show ?case
  proof (cases "\<exists>b. cl tr ?req = Response StatusOK b")
    case True
    then obtain b where b: "cl tr ?req = Response StatusOK b" by blast
    with Cons.prems kv have "add_loop cl u a ?tr1 kvs (acc @ [kv]) = (tr', x)"
      by (simp add: send_def)
    from Cons.IH [OF this] obtain new where
      new: "tr' = ?tr1 @ new" "map fst new = map (add_request u) (take (length new) kvs)"
        "length new \<le> length kvs"
        "\<forall>m. x = Inr m \<longrightarrow> m = (acc @ [kv]) @ kvs \<and> length new = length kvs \<and>
          (\<forall>e\<in>set new. \<exists>b. snd e = Response StatusOK b)"
      by blast
    show ?thesis
      by (rule exI [of _ "(?req, cl tr ?req) # new"]) (use new b in simp)
  next
    case False
    with Cons.prems kv have "tr' = ?tr1" "\<forall>m. x \<noteq> Inr m"
      by (auto simp: send_def split: http_result.splits if_splits)
    then show ?thesis
      by (auto intro!: exI [of _ "[(?req, cl tr ?req)]"])
  qed
qed

lemma clear_collection_shape:
  assumes "clear_collection cl u ra da tr = (tr', d)"
  shows "\<exists>dels. tr' = tr @ (Request GET u [], cl tr (Request GET u [])) # dels \<and>
     (\<forall>e\<in>set dels. \<exists>k. fst e = delete_request u k) \<and>
     (dels \<noteq> [] \<longrightarrow> (\<exists>b. cl tr (Request GET u []) = Response StatusOK b)) \<and>
     (cl tr (Request GET u []) = TransportError \<longrightarrow> d = Some (ClientError ra)) \<and>
     (\<forall>s b. cl tr (Request GET u []) = Response s b \<and> s \<noteq> StatusOK \<longrightarrow> d = None) \<and>
     (\<forall>b listed. d = None \<and> cl tr (Request GET u []) = Response StatusOK b \<and>
        decode_object b = Some listed \<longrightarrow>
        map fst dels = map (delete_request u) (map fst listed) \<and>
        (\<forall>e\<in>set dels. \<exists>b. snd e = Response StatusOK b))"
proof -
  let ?g = "Request GET u []"
  let ?tr1 = "tr @ [(?g, cl tr ?g)]"
  show ?thesis
  proof (cases "cl tr ?g")
    case TransportError
    with assms show ?thesis
      by (auto simp: clear_collection_def send_def)
  next
    case (Response s b)
    show ?thesis
    proof (cases "s = StatusOK")
      case False
      with Response assms show ?thesis
        by (auto simp: clear_collection_def send_def)
    next
      case True
      show ?thesis
      proof (cases "decode_object b")
        case None
        with True Response assms show ?thesis
          by (auto simp: clear_collection_def send_def)
      next
        case (Some listed)
        with True Response assms
        have "delete_loop cl u da ?tr1 (map fst listed) = (tr', d)"
          by (simp add: clear_collection_def send_def)
        from delete_loop_shape [OF this] obtain new where
          new: "tr' = ?tr1 @ new"
            "map fst new = map (delete_request u) (take (length new) (map fst listed))"
            "d = None \<longrightarrow> length new = length (map fst listed) \<and>
               (\<forall>e\<in>set new. \<exists>b. snd e = Response StatusOK b)"
          by blast
        have tagged: "\<forall>e\<in>set new. \<exists>k. fst e = delete_request u k"
        proof
          fix e assume "e \<in> set new"
          then have "fst e \<in> set (map fst new)" by simp
          then show "\<exists>k. fst e = delete_request u k"
            unfolding new(2) by auto
        qed
        show ?thesis
          by (rule exI [of _ new]) (use new tagged True Response Some in auto)
      qed
    qed
  qed
qed

lemma replace_collection_shape:
  assumes "replace_collection cl u ra da aa tr desired = (tr', x)"
  shows "\<exists>dels adds. tr' = tr @ (Request GET u [], cl tr (Request GET u [])) # dels @ adds \<and>
     (\<forall>e\<in>set dels. \<exists>k. fst e = delete_request u k) \<and>
     (\<forall>e\<in>set adds. \<exists>kv. fst e = add_request u kv) \<and>
     (dels \<noteq> [] \<longrightarrow> (\<exists>b. cl tr (Request GET u []) = Response StatusOK b)) \<and>
     (cl tr (Request GET u []) = TransportError \<longrightarrow> x = Inl (ClientError ra) \<and> adds = []) \<and>
     (\<forall>s b. cl tr (Request GET u []) = Response s b \<and> s \<noteq> StatusOK \<longrightarrow>
        (desired \<noteq> [] \<longrightarrow> adds \<noteq> [] \<and> fst (hd adds) = add_request u (hd desired))) \<and>
     (\<forall>m. x = Inr m \<longrightarrow> m = desired \<and> map fst adds = map (add_request u) desired \<and>
        (\<forall>e\<in>set (dels @ adds). \<exists>b. snd e = Response StatusOK b) \<and>
        (\<forall>b listed. cl tr (Request GET u []) = Response StatusOK b \<and>
           decode_object b = Some listed \<longrightarrow>
           map fst dels = map (delete_request u) (map fst listed)))"
proof -
  let ?g = "Request GET u []"
  obtain tr1 d where cc: "clear_collection cl u ra da tr = (tr1, d)"
    by (cases "clear_collection cl u ra da tr")
  from clear_collection_shape [OF cc] obtain dels where
    dels: "tr1 = tr @ (?g, cl tr ?g) # dels"
      "\<forall>e\<in>set dels. \<exists>k. fst e = delete_request u k"
      "dels \<noteq> [] \<longrightarrow> (\<exists>b. cl tr ?g = Response StatusOK b)"
      "cl tr ?g = TransportError \<longrightarrow> d = Some (ClientError ra)"
      "\<forall>s b. cl tr ?g = Response s b \<and> s \<noteq> StatusOK \<longrightarrow> d = None"
      "\<forall>b listed. d = None \<and> cl tr ?g = Response StatusOK b \<and> decode_object b = Some listed \<longrightarrow>
         map fst dels = map (delete_request u) (map fst listed) \<and>
         (\<forall>e\<in>set dels. \<exists>b. snd e = Response StatusOK b)"
    by blast
  show ?thesis
  proof (cases d)
    case (Some e)
    with cc assms have "tr' = tr1" "x = Inl e"
      by (simp_all add: replace_collection_def)
    with Some dels show ?thesis
      by (intro exI [of _ dels] exI [of _ "[]"]) auto
  next
    case None
    with cc assms have al: "add_loop cl u aa tr1 desired [] = (tr', x)"
      by (simp add: replace_collection_def)
    from add_loop_shape [OF al] obtain adds where
      adds: "tr' = tr1 @ adds"
        "map fst adds = map (add_request u) (take (length adds) desired)"
        "desired \<noteq> [] \<longrightarrow> adds \<noteq> []"
        "\<forall>m. x = Inr m \<longrightarrow> m = [] @ desired \<and> length adds = length desired \<and>
           (\<forall>e\<in>set adds. \<exists>b. snd e = Response StatusOK b)"
      by blast
    have tagged: "\<forall>e\<in>set adds. \<exists>kv. fst e = add_request u kv"
    proof
      fix e assume "e \<in> set adds"
      then have "fst e \<in> set (map fst adds)" by simp
      then show "\<exists>kv. fst e = add_request u kv"
        unfolding adds(2) by auto
    qed
    have first: "desired \<noteq> [] \<longrightarrow> adds \<noteq> [] \<and> fst (hd adds) = add_request u (hd desired)"
    proof
      assume ne: "desired \<noteq> []"
      with adds(3) have "adds \<noteq> []" by simp
      moreover from this have "fst (hd adds) = hd (map fst adds)"
        by (simp add: hd_map)
      moreover from \<open>adds \<noteq> []\<close> ne have "hd (map (add_request u) (take (length adds) desired)) = add_request u (hd desired)"
        by (cases adds; cases desired) simp_all
      ultimately show "adds \<noteq> [] \<and> fst (hd adds) = add_request u (hd desired)"
        using adds(2) by simp
    qed
    have dels_empty: "\<forall>s b. cl tr ?g = Response s b \<and> s \<noteq> StatusOK \<longrightarrow> dels = []"
      using dels(3) by auto
    have closed: "\<forall>m. x = Inr m \<longrightarrow> m = desired \<and> map fst adds = map (add_request u) desired \<and>
        (\<forall>e\<in>set (dels @ adds). \<exists>b. snd e = Response StatusOK b) \<and>
        (\<forall>b listed. cl tr ?g = Response StatusOK b \<and> decode_object b = Some listed \<longrightarrow>
           map fst dels = map (delete_request u) (map fst listed))"
    proof (intro allI impI)
      fix m assume m: "x = Inr m"
      with adds(4) have a: "m = desired" "length adds = length desired"
        "\<forall>e\<in>set adds. \<exists>b. snd e = Response StatusOK b" by auto
      from a(2) adds(2) have b: "map fst adds = map (add_request u) desired" by simp
      have c: "\<forall>e\<in>set dels. \<exists>b. snd e = Response StatusOK b"
      proof (cases "dels = []")
        case True then show ?thesis by simp
      next
        case False
        with dels(3) obtain b where b: "cl tr ?g = Response StatusOK b" by blast
        with None cc have "decode_object b \<noteq> None"
          by (auto simp: clear_collection_def send_def split: option.splits)
        with b None dels(6) show ?thesis by auto
      qed
      from a b c dels(6) None
      show "m = desired \<and> map fst adds = map (add_request u) desired \<and>
        (\<forall>e\<in>set (dels @ adds). \<exists>b. snd e = Response StatusOK b) \<and>
        (\<forall>b listed. cl tr ?g = Response StatusOK b \<and> decode_object b = Some listed \<longrightarrow>
           map fst dels = map (delete_request u) (map fst listed))"
        by auto
    qed
    from None dels(4) have nt: "cl tr ?g \<noteq> TransportError" by auto
    show ?thesis
      apply (rule exI [of _ dels], rule exI [of _ adds])
      using dels(1,2,3) adds(1) tagged first closed nt by (simp; blast)
  qed
qed

lemma and_then_Some: "and_then (tr, st, Some e) f = (tr, st, Some e)"
  by (simp add: and_then_def)

lemma and_then_None:
  "and_then (tr, st, None) f =
     (case f tr st of (tr', Inl d) \<Rightarrow> (tr', st, Some d) | (tr', Inr st') \<Rightarrow> (tr', st', None))"
  by (simp add: and_then_def)

lemma post_and_decode_shape:
  assumes "post_and_decode cl tr req a = (tr', d)"
  shows "tr' = tr @ [(req, cl tr req)] \<and>
    (d = None \<longrightarrow> (\<exists>b. cl tr req = Response StatusOK b)) \<and>
    (cl tr req = TransportError \<longrightarrow> d = Some (ClientError a)) \<and>
    (\<forall>s b. cl tr req = Response s b \<and> s \<noteq> StatusOK \<longrightarrow> d = Some (APIError a s))"
  using assms
  by (auto simp: post_and_decode_def send_def split: http_result.splits if_splits option.splits)

lemma frame_ID_Name: "\<exists>i n. st = st\<lparr>ID := i, Name := n\<rparr>"
  by (rule exI [of _ "ID st"], rule exI [of _ "Name st"]) simp

lemma rename_stage:
  assumes "and_then (tr, st, d) (rename_step cl data) = (tr', st', d')"
  shows "\<exists>new. tr' = tr @ new \<and> (\<forall>e\<in>set new. url (fst e) = move_url) \<and>
     (d \<noteq> None \<longrightarrow> new = [] \<and> d' = d) \<and>
     (d' = None \<longrightarrow> d = None) \<and>
     (d' \<noteq> None \<longrightarrow> st' = st) \<and>
     (ValueString (Name st) = ValueString (Name data) \<longrightarrow> new = [] \<and> st' = st \<and> d' = d) \<and>
     (d' = None \<and> ValueString (Name st) \<noteq> ValueString (Name data) \<longrightarrow>
        st' = st\<lparr>ID := TfValue (move_target (ValueString (ID st)) (ValueString (Name data))),
                Name := Name data\<rparr>) \<and>
     (\<exists>i n. st' = st\<lparr>ID := i, Name := n\<rparr>)"
proof (cases d)
  case (Some e)
  with assms show ?thesis
    by (auto simp: and_then_Some frame_ID_Name)
next
  case None
  let ?req = "Request POST move_url
     (move_body (ValueString (ID st)) (move_target (ValueString (ID st)) (ValueString (Name data))))"
  show ?thesis
  proof (cases "ValueString (Name st) = ValueString (Name data)")
    case True
    with None assms have "tr' = tr" "st' = st" "d' = None"
      by (simp_all add: and_then_None rename_step_def)
    with None True show ?thesis
      by (auto simp: frame_ID_Name)
  next
    case False
    with None assms have tr': "tr' = tr @ [(?req, cl tr ?req)]"
      by (auto simp: and_then_None rename_step_def send_def Let_def
          split: http_result.splits if_splits)
    from False None assms have st': "d' \<noteq> None \<and> st' = st \<or>
       d' = None \<and> st' = st\<lparr>ID := TfValue (move_target (ValueString (ID st)) (ValueString (Name data))),
                Name := Name data\<rparr>"
      by (auto simp: and_then_None rename_step_def send_def Let_def
          split: http_result.splits if_splits)
    have fr: "\<exists>i n. st' = st\<lparr>ID := i, Name := n\<rparr>"
      using st' frame_ID_Name [of st] by auto
    show ?thesis
      by (rule exI [of _ "[(?req, cl tr ?req)]"]) (use tr' st' fr None False in auto)
  qed
qed

lemma visibility_stage:
  assumes "and_then (tr, st, d) (visibility_step cl data) = (tr', st', d')"
  shows "\<exists>new. tr' = tr @ new \<and>
     (\<forall>e\<in>set new. url (fst e) = space_url (ValueString (ID data)) ''settings'') \<and>
     (d \<noteq> None \<longrightarrow> new = [] \<and> d' = d) \<and>
     (d' = None \<longrightarrow> d = None) \<and>
     (Private st = Private data \<longrightarrow> new = [] \<and> d' = d) \<and>
     st' = st"
proof (cases d)
  case (Some e)
  with assms show ?thesis
    by (auto simp: and_then_Some)
next
  case None
  let ?req = "Request PUT (space_url (ValueString (ID data)) ''settings'')
                  (private_body (ValueBool (Private data)))"
  show ?thesis
  proof (cases "Private st = Private data")
    case True
    with None assms show ?thesis
      by (simp add: and_then_None visibility_step_def)
  next
    case False
    with None assms have "tr' = tr @ [(?req, cl tr ?req)]" "st' = st"
      by (auto simp: and_then_None visibility_step_def send_def Let_def
          split: http_result.splits if_splits)
    then show ?thesis
      using None False by (intro exI [of _ "[(?req, cl tr ?req)]"]) auto
  qed
qed

lemma replace_collection_segment:
  assumes "replace_collection cl u ra da aa tr desired = (tr', x)"
  shows "\<exists>dels adds. tr' = tr @ (Request GET u [], cl tr (Request GET u [])) # dels @ adds \<and>
     collection_segment u ra desired (cl tr (Request GET u [])) dels adds
       (case x of Inl e \<Rightarrow> Some e | Inr m \<Rightarrow> None) \<and>
     (\<forall>m. x = Inr m \<longrightarrow> m = desired)"
proof -
  from replace_collection_shape [OF assms] obtain dels adds where
    *: "tr' = tr @ (Request GET u [], cl tr (Request GET u [])) # dels @ adds \<and>
     (\<forall>e\<in>set dels. \<exists>k. fst e = delete_request u k) \<and>
     (\<forall>e\<in>set adds. \<exists>kv. fst e = add_request u kv) \<and>
     (dels \<noteq> [] \<longrightarrow> (\<exists>b. cl tr (Request GET u []) = Response StatusOK b)) \<and>
     (cl tr (Request GET u []) = TransportError \<longrightarrow> x = Inl (ClientError ra) \<and> adds = []) \<and>
     (\<forall>s b. cl tr (Request GET u []) = Response s b \<and> s \<noteq> StatusOK \<longrightarrow>
        (desired \<noteq> [] \<longrightarrow> adds \<noteq> [] \<and> fst (hd adds) = add_request u (hd desired))) \<and>
     (\<forall>m. x = Inr m \<longrightarrow> m = desired \<and> map fst adds = map (add_request u) desired \<and>
        (\<forall>e\<in>set (dels @ adds). \<exists>b. snd e = Response StatusOK b) \<and>
        (\<forall>b listed. cl tr (Request GET u []) = Response StatusOK b \<and>
           decode_object b = Some listed \<longrightarrow>
           map fst dels = map (delete_request u) (map fst listed)))"
    by blast
  show ?thesis
    apply (rule exI [of _ dels], rule exI [of _ adds])
    unfolding collection_segment_def
    using * by (cases x) auto
qed

lemma collection_segment_urls:
  assumes "collection_segment u ra desired res dels adds d"
  shows "\<forall>e\<in>set ((Request GET u [], res) # dels @ adds). url (fst e) = u"
  using assms unfolding collection_segment_def
  by (auto simp: delete_request_def add_request_def)

lemma secrets_stage:
  assumes "and_then (tr, st, d) (secrets_step cl data) = (tr', st', d')"
  shows "\<exists>new. tr' = tr @ new \<and>
     (\<forall>e\<in>set new. url (fst e) = space_url (ValueString (ID data)) ''secrets'') \<and>
     (d \<noteq> None \<longrightarrow> new = [] \<and> d' = d) \<and>
     (d' = None \<longrightarrow> d = None) \<and>
     (d' \<noteq> None \<longrightarrow> st' = st) \<and>
     (IsNull (Secrets data) \<or> IsUnknown (Secrets data) \<longrightarrow> new = [] \<and> st' = st \<and> d' = d) \<and>
     (\<exists>x. st' = st\<lparr>Secrets := x\<rparr>) \<and>
     (\<forall>desired. d = None \<and> Secrets data = TfValue desired \<longrightarrow>
        (d' = None \<longrightarrow> st' = st\<lparr>Secrets := TfValue desired\<rparr>) \<and>
        (\<exists>dels adds.
           new = (Request GET (space_url (ValueString (ID data)) ''secrets'') [],
                  cl tr (Request GET (space_url (ValueString (ID data)) ''secrets'') [])) # dels @ adds \<and>
           collection_segment (space_url (ValueString (ID data)) ''secrets'') RetrieveSecrets desired
             (cl tr (Request GET (space_url (ValueString (ID data)) ''secrets'') [])) dels adds d'))"
proof -
  let ?u = "space_url (ValueString (ID data)) ''secrets''"
  have fr0: "\<exists>x. st = st\<lparr>Secrets := x\<rparr>"
    by (rule exI [of _ "Secrets st"]) simp
  show ?thesis
  proof (cases d)
    case (Some e)
    with assms fr0 show ?thesis
      by (auto simp: and_then_Some)
  next
    case None
    show ?thesis
    proof (cases "Secrets data")
      case TfNull
      with None assms fr0 show ?thesis
        by (auto simp: and_then_None secrets_step_def)
    next
      case TfUnknown
      with None assms fr0 show ?thesis
        by (auto simp: and_then_None secrets_step_def)
    next
      case (TfValue desired)
      obtain tr1 x where rc: "replace_collection cl ?u RetrieveSecrets DeleteSecret AddSecret tr desired = (tr1, x)"
        by (cases "replace_collection cl ?u RetrieveSecrets DeleteSecret AddSecret tr desired")
      from replace_collection_segment [OF rc] obtain dels adds where
        seg: "tr1 = tr @ (Request GET ?u [], cl tr (Request GET ?u [])) # dels @ adds"
          "collection_segment ?u RetrieveSecrets desired (cl tr (Request GET ?u [])) dels adds
             (case x of Inl e \<Rightarrow> Some e | Inr m \<Rightarrow> None)"
          "\<forall>m. x = Inr m \<longrightarrow> m = desired"
        by blast
      from assms None TfValue rc have out: "tr' = tr1"
        "d' = (case x of Inl e \<Rightarrow> Some e | Inr m \<Rightarrow> None)"
        "st' = (case x of Inl e \<Rightarrow> st | Inr m \<Rightarrow> st\<lparr>Secrets := TfValue m\<rparr>)"
        by (auto simp: and_then_None secrets_step_def split: sum.splits)
      have fr: "\<exists>x. st' = st\<lparr>Secrets := x\<rparr>"
        using out(3) fr0 by (cases x) auto
      show ?thesis
        apply (rule exI [of _ "(Request GET ?u [], cl tr (Request GET ?u [])) # dels @ adds"])
        using seg out fr None TfValue collection_segment_urls [OF seg(2)]
        by (cases x) auto
    qed
  qed
qed

lemma variables_stage:
  assumes "and_then (tr, st, d) (variables_step cl data) = (tr', st', d')"
  shows "\<exists>new. tr' = tr @ new \<and>
     (\<forall>e\<in>set new. url (fst e) = space_url (ValueString (ID data)) ''variables'') \<and>
     (d \<noteq> None \<longrightarrow> new = [] \<and> d' = d) \<and>
     (d' = None \<longrightarrow> d = None) \<and>
     (d' \<noteq> None \<longrightarrow> st' = st) \<and>
     (IsNull (Variables data) \<or> IsUnknown (Variables data) \<longrightarrow> new = [] \<and> st' = st \<and> d' = d) \<and>
     (\<exists>x. st' = st\<lparr>Variables := x\<rparr>) \<and>
     (\<forall>desired. d = None \<and> Variables data = TfValue desired \<longrightarrow>
        (d' = None \<longrightarrow> st' = st\<lparr>Variables := TfValue desired\<rparr>) \<and>
        (\<exists>dels adds.
           new = (Request GET (space_url (ValueString (ID data)) ''variables'') [],
                  cl tr (Request GET (space_url (ValueString (ID data)) ''variables'') [])) # dels @ adds \<and>
           collection_segment (space_url (ValueString (ID data)) ''variables'') RetrieveVariables desired
             (cl tr (Request GET (space_url (ValueString (ID data)) ''variables'') [])) dels adds d'))"
proof -
  let ?u = "space_url (ValueString (ID data)) ''variables''"
  have fr0: "\<exists>x. st = st\<lparr>Variables := x\<rparr>"
    by (rule exI [of _ "Variables st"]) simp
  show ?thesis
  proof (cases d)
    case (Some e)
    with assms fr0 show ?thesis
      by (auto simp: and_then_Some)
  next
    case None
    show ?thesis
    proof (cases "Variables data")
      case TfNull
      with None assms fr0 show ?thesis
        by (auto simp: and_then_None variables_step_def)
    next
      case TfUnknown
      with None assms fr0 show ?thesis
        by (auto simp: and_then_None variables_step_def)
    next
      case (TfValue desired)
      obtain tr1 x where rc: "replace_collection cl ?u RetrieveVariables DeleteVariable AddVariable tr desired = (tr1, x)"
        by (cases "replace_collection cl ?u RetrieveVariables DeleteVariable AddVariable tr desired")
      from replace_collection_segment [OF rc] obtain dels adds where
        seg: "tr1 = tr @ (Request GET ?u [], cl tr (Request GET ?u [])) # dels @ adds"
          "collection_segment ?u RetrieveVariables desired (cl tr (Request GET ?u [])) dels adds
             (case x of Inl e \<Rightarrow> Some e | Inr m \<Rightarrow> None)"
          "\<forall>m. x = Inr m \<longrightarrow> m = desired"
        by blast
      from assms None TfValue rc have out: "tr' = tr1"
        "d' = (case x of Inl e \<Rightarrow> Some e | Inr m \<Rightarrow> None)"
        "st' = (case x of Inl e \<Rightarrow> st | Inr m \<Rightarrow> st\<lparr>Variables := TfValue m\<rparr>)"
        by (auto simp: and_then_None variables_step_def split: sum.splits)
      have fr: "\<exists>x. st' = st\<lparr>Variables := x\<rparr>"
        using out(3) fr0 by (cases x) auto
      show ?thesis
        apply (rule exI [of _ "(Request GET ?u [], cl tr (Request GET ?u [])) # dels @ adds"])
        using seg out fr None TfValue collection_segment_urls [OF seg(2)]
        by (cases x) auto
    qed
  qed
qed

lemma hardware_stage:
  assumes "and_then (tr, st, d) (hardware_step cl data) = (tr', st', d')"
  shows "\<exists>new. tr' = tr @ new \<and>
     (\<forall>e\<in>set new. url (fst e) = space_url (ValueString (ID data)) ''hardware'') \<and>
     (d \<noteq> None \<longrightarrow> new = [] \<and> d' = d) \<and>
     (d' = None \<longrightarrow> d = None) \<and>
     (d' \<noteq> None \<longrightarrow> st' = st) \<and>
     (ValueString (Hardware st) = ValueString (Hardware data) \<longrightarrow> new = [] \<and> st' = st \<and> d' = d) \<and>
     (\<exists>x. st' = st\<lparr>Hardware := x\<rparr>) \<and>
     (d = None \<and> ValueString (Hardware st) \<noteq> ValueString (Hardware data) \<longrightarrow>
        new = [(Request POST (space_url (ValueString (ID data)) ''hardware'')
                  (hardware_body (ValueString (Hardware data))),
                cl tr (Request POST (space_url (ValueString (ID data)) ''hardware'')
                  (hardware_body (ValueString (Hardware data)))))] \<and>
        (d' = None \<longrightarrow> st' = st\<lparr>Hardware := Hardware data\<rparr>) \<and>
        (cl tr (Request POST (space_url (ValueString (ID data)) ''hardware'')
                  (hardware_body (ValueString (Hardware data)))) = TransportError \<longrightarrow>
           d' = Some (ClientError UpdateHardware)) \<and>
        (\<forall>s b. cl tr (Request POST (space_url (ValueString (ID data)) ''hardware'')
                  (hardware_body (ValueString (Hardware data)))) = Response s b \<and> s \<noteq> StatusOK \<longrightarrow>
           d' = Some (APIError UpdateHardware s)))"
proof -
  let ?req = "Request POST (space_url (ValueString (ID data)) ''hardware'')
                  (hardware_body (ValueString (Hardware data)))"
  have fr0: "\<exists>x. st = st\<lparr>Hardware := x\<rparr>"
    by (rule exI [of _ "Hardware st"]) simp
  show ?thesis
  proof (cases d)
    case (Some e)
    with assms fr0 show ?thesis
      by (auto simp: and_then_Some)
  next
    case None
    show ?thesis
    proof (cases "ValueString (Hardware st) = ValueString (Hardware data)")
      case True
      with None assms fr0 show ?thesis
        by (auto simp: and_then_None hardware_step_def)
    next
      case False
      obtain tr1 x where pd: "post_and_decode cl tr ?req UpdateHardware = (tr1, x)"
        by (cases "post_and_decode cl tr ?req UpdateHardware")
      note sh = post_and_decode_shape [OF pd]
      from assms None False pd have out: "tr' = tr1" "d' = x"
        "st' = (case x of Some e \<Rightarrow> st | None \<Rightarrow> st\<lparr>Hardware := Hardware data\<rparr>)"
        by (auto simp: and_then_None hardware_step_def split: option.splits)
      have fr: "\<exists>x. st' = st\<lparr>Hardware := x\<rparr>"
        using out(3) fr0 by (cases x) auto
      show ?thesis
        apply (rule exI [of _ "[(?req, cl tr ?req)]"])
        using sh out fr None False by (cases x) auto
    qed
  qed
qed

lemma storage_stage:
  assumes "and_then (tr, st, d) (storage_step cl data) = (tr', st', d')"
  shows "\<exists>new. tr' = tr @ new \<and>
     (\<forall>e\<in>set new. url (fst e) = space_url (ValueString (ID data)) ''storage'') \<and>
     (d \<noteq> None \<longrightarrow> new = [] \<and> d' = d) \<and>
     (d' = None \<longrightarrow> d = None) \<and>
     (d' \<noteq> None \<longrightarrow> st' = st) \<and>
     (ValueString (Storage st) = ValueString (Storage data) \<longrightarrow> new = [] \<and> st' = st \<and> d' = d) \<and>
     (\<exists>x. st' = st\<lparr>Storage := x\<rparr>) \<and>
     (d' = None \<and> ValueString (Storage st) \<noteq> ValueString (Storage data) \<longrightarrow>
        st' = st\<lparr>Storage := Storage data\<rparr>)"
proof -
  let ?req = "Request POST (space_url (ValueString (ID data)) ''storage'')
                  (storage_body (ValueString (Storage data)))"
  have fr0: "\<exists>x. st = st\<lparr>Storage := x\<rparr>"
    by (rule exI [of _ "Storage st"]) simp
  show ?thesis
  proof (cases d)
    case (Some e)
    with assms fr0 show ?thesis
      by (auto simp: and_then_Some)
  next
    case None
    show ?thesis
    proof (cases "ValueString (Storage st) = ValueString (Storage data)")
      case True
      with None assms fr0 show ?thesis
        by (auto simp: and_then_None storage_step_def)
    next
      case False
      obtain tr1 x where pd: "post_and_decode cl tr ?req UpdateStorage = (tr1, x)"
        by (cases "post_and_decode cl tr ?req UpdateStorage")
      note sh = post_and_decode_shape [OF pd]
      from assms None False pd have out: "tr' = tr1" "d' = x"
        "st' = (case x of Some e \<Rightarrow> st | None \<Rightarrow> st\<lparr>Storage := Storage data\<rparr>)"
        by (auto simp: and_then_None storage_step_def split: option.splits)
      have fr: "\<exists>x. st' = st\<lparr>Storage := x\<rparr>"
        using out(3) fr0 by (cases x) auto
      show ?thesis
        apply (rule exI [of _ "[(?req, cl tr ?req)]"])
        using sh out fr None False by (cases x) auto
    qed
  qed
qed

lemma sleeptime_stage:
  assumes "and_then (tr, st, d) (sleeptime_step cl data) = (tr', st', d')"
  shows "\<exists>new. tr' = tr @ new \<and>
     (\<forall>e\<in>set new. url (fst e) = space_url (ValueString (ID data)) ''sleeptime'') \<and>
     (d \<noteq> None \<longrightarrow> new = [] \<and> d' = d) \<and>
     (d' = None \<longrightarrow> d = None) \<and>
     (d' \<noteq> None \<longrightarrow> st' = st) \<and>
     (ValueInt64 (SleepTime st) = ValueInt64 (SleepTime data) \<longrightarrow> new = [] \<and> st' = st \<and> d' = d) \<and>
     (\<exists>x. st' = st\<lparr>SleepTime := x\<rparr>) \<and>
     (d' = None \<and> ValueInt64 (SleepTime st) \<noteq> ValueInt64 (SleepTime data) \<longrightarrow>
        st' = st\<lparr>SleepTime := SleepTime data\<rparr>)"
proof -
  let ?req = "Request POST (space_url (ValueString (ID data)) ''sleeptime'')
                  (sleeptime_body (ValueInt64 (SleepTime data)))"
  have fr0: "\<exists>x. st = st\<lparr>SleepTime := x\<rparr>"
    by (rule exI [of _ "SleepTime st"]) simp
  show ?thesis
  proof (cases d)
    case (Some e)
    with assms fr0 show ?thesis
      by (auto simp: and_then_Some)
  next
    case None
    show ?thesis
    proof (cases "ValueInt64 (SleepTime st) = ValueInt64 (SleepTime data)")
      case True
      with None assms fr0 show ?thesis
        by (auto simp: and_then_None sleeptime_step_def)
    next
      case False
      obtain tr1 x where pd: "post_and_decode cl tr ?req UpdateSleepTime = (tr1, x)"
        by (cases "post_and_decode cl tr ?req UpdateSleepTime")
      note sh = post_and_decode_shape [OF pd]
      from assms None False pd have out: "tr' = tr1" "d' = x"
        "st' = (case x of Some e \<Rightarrow> st | None \<Rightarrow> st\<lparr>SleepTime := SleepTime data\<rparr>)"
        by (auto simp: and_then_None sleeptime_step_def split: option.splits)
      have fr: "\<exists>x. st' = st\<lparr>SleepTime := x\<rparr>"
        using out(3) fr0 by (cases x) auto
      show ?thesis
        apply (rule exI [of _ "[(?req, cl tr ?req)]"])
        using sh out fr None False by (cases x) auto
    qed
  qed
qed

lemma Update_run_stages:
  obtains tr1 st1 d1 tr2 st2 d2 tr3 st3 d3 tr4 st4 d4 tr5 st5 d5 tr6 st6 d6 tr7 st7 d7 where
    "and_then ([], state, None) (rename_step cl data) = (tr1, st1, d1)"
    "and_then (tr1, st1, d1) (visibility_step cl data) = (tr2, st2, d2)"
    "and_then (tr2, st2, d2) (secrets_step cl data) = (tr3, st3, d3)"
    "and_then (tr3, st3, d3) (variables_step cl data) = (tr4, st4, d4)"
    "and_then (tr4, st4, d4) (hardware_step cl data) = (tr5, st5, d5)"
    "and_then (tr5, st5, d5) (storage_step cl data) = (tr6, st6, d6)"
    "and_then (tr6, st6, d6) (sleeptime_step cl data) = (tr7, st7, d7)"
    "Update_run cl data state = (tr7, st7, d7)"
proof -
  obtain tr1 st1 d1 where 1: "and_then ([], state, None) (rename_step cl data) = (tr1, st1, d1)"
    using prod_cases3 by blast
  obtain tr2 st2 d2 where 2: "and_then (tr1, st1, d1) (visibility_step cl data) = (tr2, st2, d2)"
    using prod_cases3 by blast
  obtain tr3 st3 d3 where 3: "and_then (tr2, st2, d2) (secrets_step cl data) = (tr3, st3, d3)"
    using prod_cases3 by blast
  obtain tr4 st4 d4 where 4: "and_then (tr3, st3, d3) (variables_step cl data) = (tr4, st4, d4)"
    using prod_cases3 by blast
  obtain tr5 st5 d5 where 5: "and_then (tr4, st4, d4) (hardware_step cl data) = (tr5, st5, d5)"
    using prod_cases3 by blast
  obtain tr6 st6 d6 where 6: "and_then (tr5, st5, d5) (storage_step cl data) = (tr6, st6, d6)"
    using prod_cases3 by blast
  obtain tr7 st7 d7 where 7: "and_then (tr6, st6, d6) (sleeptime_step cl data) = (tr7, st7, d7)"
    using prod_cases3 by blast
  have "Update_run cl data state = (tr7, st7, d7)"
    by (simp add: Update_run_def 1 2 3 4 5 6 7)
  with 1 2 3 4 5 6 7 show thesis by (rule that)
qed

lemmas step_defs = rename_step_def visibility_step_def secrets_step_def variables_step_def
  hardware_step_def storage_step_def sleeptime_step_def replace_collection_def
  clear_collection_def post_and_decode_def send_def and_then_def

lemmas eval_defs = Update_def Update_run_def step_defs StatusOK_def ok_client_def space0_def
  Request_def add_request_def delete_request_def space_url_def move_url_def move_target_def

text \<open>The two facts about a block that most proofs need: where it calls, and what it may change.\<close>

lemma rename_stage_calls:
  assumes "and_then (tr, st, d) (rename_step cl data) = (tr', st', d')"
  shows "\<exists>new. tr' = tr @ new \<and>
     (\<forall>e\<in>set new. url (fst e) = move_url) \<and>
     (d \<noteq> None \<longrightarrow> new = [] \<and> d' = d) \<and>
     (d' = None \<longrightarrow> d = None)"
  using rename_stage [OF assms] by (elim exE conjE) (rule exI, intro conjI)

lemma rename_stage_frame:
  assumes "and_then (tr, st, d) (rename_step cl data) = (tr', st', d')"
  shows "\<exists>i n. st' = st\<lparr>ID := i, Name := n\<rparr>"
  using rename_stage [OF assms] by (elim exE conjE) (rule exI, rule exI)

lemma visibility_stage_calls:
  assumes "and_then (tr, st, d) (visibility_step cl data) = (tr', st', d')"
  shows "\<exists>new. tr' = tr @ new \<and>
     (\<forall>e\<in>set new. url (fst e) = space_url (ValueString (ID data)) ''settings'') \<and>
     (d \<noteq> None \<longrightarrow> new = [] \<and> d' = d) \<and>
     (d' = None \<longrightarrow> d = None)"
  using visibility_stage [OF assms] by (elim exE conjE) (rule exI, intro conjI)

lemma visibility_stage_frame:
  assumes "and_then (tr, st, d) (visibility_step cl data) = (tr', st', d')"
  shows "st' = st"
  using visibility_stage [OF assms] by (elim exE conjE)

lemma secrets_stage_calls:
  assumes "and_then (tr, st, d) (secrets_step cl data) = (tr', st', d')"
  shows "\<exists>new. tr' = tr @ new \<and>
     (\<forall>e\<in>set new. url (fst e) = space_url (ValueString (ID data)) ''secrets'') \<and>
     (d \<noteq> None \<longrightarrow> new = [] \<and> d' = d) \<and>
     (d' = None \<longrightarrow> d = None)"
  using secrets_stage [OF assms] by (elim exE conjE) (rule exI, intro conjI)

lemma secrets_stage_frame:
  assumes "and_then (tr, st, d) (secrets_step cl data) = (tr', st', d')"
  shows "\<exists>x. st' = st\<lparr>Secrets := x\<rparr>"
  using secrets_stage [OF assms] by (elim exE conjE) (rule exI)

lemma variables_stage_calls:
  assumes "and_then (tr, st, d) (variables_step cl data) = (tr', st', d')"
  shows "\<exists>new. tr' = tr @ new \<and>
     (\<forall>e\<in>set new. url (fst e) = space_url (ValueString (ID data)) ''variables'') \<and>
     (d \<noteq> None \<longrightarrow> new = [] \<and> d' = d) \<and>
     (d' = None \<longrightarrow> d = None)"
  using variables_stage [OF assms] by (elim exE conjE) (rule exI, intro conjI)

lemma variables_stage_frame:
  assumes "and_then (tr, st, d) (variables_step cl data) = (tr', st', d')"
  shows "\<exists>x. st' = st\<lparr>Variables := x\<rparr>"
  using variables_stage [OF assms] by (elim exE conjE) (rule exI)

lemma hardware_stage_calls:
  assumes "and_then (tr, st, d) (hardware_step cl data) = (tr', st', d')"
  shows "\<exists>new. tr' = tr @ new \<and>
     (\<forall>e\<in>set new. url (fst e) = space_url (ValueString (ID data)) ''hardware'') \<and>
     (d \<noteq> None \<longrightarrow> new = [] \<and> d' = d) \<and>
     (d' = None \<longrightarrow> d = None)"
  using hardware_stage [OF assms] by (elim exE conjE) (rule exI, intro conjI)

lemma hardware_stage_frame:
  assumes "and_then (tr, st, d) (hardware_step cl data) = (tr', st', d')"
  shows "\<exists>x. st' = st\<lparr>Hardware := x\<rparr>"
  using hardware_stage [OF assms] by (elim exE conjE) (rule exI)

lemma storage_stage_calls:
  assumes "and_then (tr, st, d) (storage_step cl data) = (tr', st', d')"
  shows "\<exists>new. tr' = tr @ new \<and>
     (\<forall>e\<in>set new. url (fst e) = space_url (ValueString (ID data)) ''storage'') \<and>
     (d \<noteq> None \<longrightarrow> new = [] \<and> d' = d) \<and>
     (d' = None \<longrightarrow> d = None)"
  using storage_stage [OF assms] by (elim exE conjE) (rule exI, intro conjI)

lemma storage_stage_frame:
  assumes "and_then (tr, st, d) (storage_step cl data) = (tr', st', d')"
  shows "\<exists>x. st' = st\<lparr>Storage := x\<rparr>"
  using storage_stage [OF assms] by (elim exE conjE) (rule exI)

lemma sleeptime_stage_calls:
  assumes "and_then (tr, st, d) (sleeptime_step cl data) = (tr', st', d')"
  shows "\<exists>new. tr' = tr @ new \<and>
     (\<forall>e\<in>set new. url (fst e) = space_url (ValueString (ID data)) ''sleeptime'') \<and>
     (d \<noteq> None \<longrightarrow> new = [] \<and> d' = d) \<and>
     (d' = None \<longrightarrow> d = None)"
  using sleeptime_stage [OF assms] by (elim exE conjE) (rule exI, intro conjI)

lemma sleeptime_stage_frame:
  assumes "and_then (tr, st, d) (sleeptime_step cl data) = (tr', st', d')"
  shows "\<exists>x. st' = st\<lparr>SleepTime := x\<rparr>"
  using sleeptime_stage [OF assms] by (elim exE conjE) (rule exI)

lemma space_url_eq [simp]: "space_url i a = space_url i b \<longleftrightarrow> a = b"
  by (simp add: space_url_def)

lemma move_url_neq [simp]: "space_url i a \<noteq> move_url" "move_url \<noteq> space_url i a"
  by (simp_all add: space_url_def move_url_def)

lemma Update_run_frame:
  assumes "Update_run cl data state = (tr, st, d)"
  shows "\<exists>i n sec var hw sto sl.
     st = state\<lparr>ID := i, Name := n, Secrets := sec, Variables := var, Hardware := hw,
                Storage := sto, SleepTime := sl\<rparr>"
proof -
  obtain tr1 st1 d1 tr2 st2 d2 tr3 st3 d3 tr4 st4 d4 tr5 st5 d5 tr6 st6 d6 tr7 st7 d7 where
    s1: "and_then ([], state, None) (rename_step cl data) = (tr1, st1, d1)" and
    s2: "and_then (tr1, st1, d1) (visibility_step cl data) = (tr2, st2, d2)" and
    s3: "and_then (tr2, st2, d2) (secrets_step cl data) = (tr3, st3, d3)" and
    s4: "and_then (tr3, st3, d3) (variables_step cl data) = (tr4, st4, d4)" and
    s5: "and_then (tr4, st4, d4) (hardware_step cl data) = (tr5, st5, d5)" and
    s6: "and_then (tr5, st5, d5) (storage_step cl data) = (tr6, st6, d6)" and
    s7: "and_then (tr6, st6, d6) (sleeptime_step cl data) = (tr7, st7, d7)" and
    run: "Update_run cl data state = (tr7, st7, d7)"
    by (rule Update_run_stages)
  from rename_stage_frame [OF s1] obtain i n where 1: "st1 = state\<lparr>ID := i, Name := n\<rparr>" by blast
  from visibility_stage_frame [OF s2] have 2: "st2 = st1" by blast
  from secrets_stage_frame [OF s3] obtain sec where 3: "st3 = st2\<lparr>Secrets := sec\<rparr>" by blast
  from variables_stage_frame [OF s4] obtain var where 4: "st4 = st3\<lparr>Variables := var\<rparr>" by blast
  from hardware_stage_frame [OF s5] obtain hw where 5: "st5 = st4\<lparr>Hardware := hw\<rparr>" by blast
  from storage_stage_frame [OF s6] obtain sto where 6: "st6 = st5\<lparr>Storage := sto\<rparr>" by blast
  from sleeptime_stage_frame [OF s7] obtain sl where 7: "st7 = st6\<lparr>SleepTime := sl\<rparr>" by blast
  from run assms have "st = st7" by simp
  then have "st = state\<lparr>ID := i, Name := n, Secrets := sec, Variables := var, Hardware := hw,
                Storage := sto, SleepTime := sl\<rparr>"
    by (simp add: 1 2 3 4 5 6 7)
  then show ?thesis by blast
qed

lemma Update_run_urls:
  assumes "Update_run cl data state = (tr, st, d)" and "e \<in> set tr"
  shows "url (fst e) = move_url \<or>
     (\<exists>w \<in> {''settings'', ''secrets'', ''variables'', ''hardware'', ''storage'', ''sleeptime''}.
        url (fst e) = space_url (ValueString (ID data)) w)"
proof -
  obtain tr1 st1 d1 tr2 st2 d2 tr3 st3 d3 tr4 st4 d4 tr5 st5 d5 tr6 st6 d6 tr7 st7 d7 where
    s1: "and_then ([], state, None) (rename_step cl data) = (tr1, st1, d1)" and
    s2: "and_then (tr1, st1, d1) (visibility_step cl data) = (tr2, st2, d2)" and
    s3: "and_then (tr2, st2, d2) (secrets_step cl data) = (tr3, st3, d3)" and
    s4: "and_then (tr3, st3, d3) (variables_step cl data) = (tr4, st4, d4)" and
    s5: "and_then (tr4, st4, d4) (hardware_step cl data) = (tr5, st5, d5)" and
    s6: "and_then (tr5, st5, d5) (storage_step cl data) = (tr6, st6, d6)" and
    s7: "and_then (tr6, st6, d6) (sleeptime_step cl data) = (tr7, st7, d7)" and
    run: "Update_run cl data state = (tr7, st7, d7)"
    by (rule Update_run_stages)
  from rename_stage_calls [OF s1] obtain n1 where 1: "tr1 = [] @ n1"
    "\<forall>e\<in>set n1. url (fst e) = move_url" by blast
  from visibility_stage_calls [OF s2] obtain n2 where 2: "tr2 = tr1 @ n2"
    "\<forall>e\<in>set n2. url (fst e) = space_url (ValueString (ID data)) ''settings''" by blast
  from secrets_stage_calls [OF s3] obtain n3 where 3: "tr3 = tr2 @ n3"
    "\<forall>e\<in>set n3. url (fst e) = space_url (ValueString (ID data)) ''secrets''" by blast
  from variables_stage_calls [OF s4] obtain n4 where 4: "tr4 = tr3 @ n4"
    "\<forall>e\<in>set n4. url (fst e) = space_url (ValueString (ID data)) ''variables''" by blast
  from hardware_stage_calls [OF s5] obtain n5 where 5: "tr5 = tr4 @ n5"
    "\<forall>e\<in>set n5. url (fst e) = space_url (ValueString (ID data)) ''hardware''" by blast
  from storage_stage_calls [OF s6] obtain n6 where 6: "tr6 = tr5 @ n6"
    "\<forall>e\<in>set n6. url (fst e) = space_url (ValueString (ID data)) ''storage''" by blast
  from sleeptime_stage_calls [OF s7] obtain n7 where 7: "tr7 = tr6 @ n7"
    "\<forall>e\<in>set n7. url (fst e) = space_url (ValueString (ID data)) ''sleeptime''" by blast
  from run assms have "e \<in> set n1 \<union> set n2 \<union> set n3 \<union> set n4 \<union> set n5 \<union> set n6 \<union> set n7"
    by (simp add: 1 2 3 4 5 6 7)
  with 1(2) 2(2) 3(2) 4(2) 5(2) 6(2) 7(2) show ?thesis
    by auto
qed

lemma Update_fields:
  "calls (Update cl data state) = fst (Update_run cl data state)"
  "working (Update cl data state) = fst (snd (Update_run cl data state))"
  "diagnostic (Update cl data state) = snd (snd (Update_run cl data state))"
  "resp_state (Update cl data state) =
     (case snd (snd (Update_run cl data state)) of
        None \<Rightarrow> Some (fst (snd (Update_run cl data state))) | Some e \<Rightarrow> None)"
  by (simp_all add: Update_def case_prod_beta)

lemma resp_state_working:
  "resp_state (Update cl data state) = Some st \<Longrightarrow>
     st = working (Update cl data state) \<and> diagnostic (Update cl data state) = None"
  by (auto simp: Update_fields split: option.splits)

lemma step_ignores_SDK_Template:
  "rename_step cl (data\<lparr>SDK := s, Template := t\<rparr>) = rename_step cl data"
  "visibility_step cl (data\<lparr>SDK := s, Template := t\<rparr>) = visibility_step cl data"
  "secrets_step cl (data\<lparr>SDK := s, Template := t\<rparr>) = secrets_step cl data"
  "variables_step cl (data\<lparr>SDK := s, Template := t\<rparr>) = variables_step cl data"
  "hardware_step cl (data\<lparr>SDK := s, Template := t\<rparr>) = hardware_step cl data"
  "storage_step cl (data\<lparr>SDK := s, Template := t\<rparr>) = storage_step cl data"
  "sleeptime_step cl (data\<lparr>SDK := s, Template := t\<rparr>) = sleeptime_step cl data"
proof -
  show "rename_step cl (data\<lparr>SDK := s, Template := t\<rparr>) = rename_step cl data"
    by (intro ext) (simp add: rename_step_def Let_def cong: prod.case_cong http_result.case_cong option.case_cong if_cong)
  show "visibility_step cl (data\<lparr>SDK := s, Template := t\<rparr>) = visibility_step cl data"
    by (intro ext) (simp add: visibility_step_def Let_def cong: prod.case_cong http_result.case_cong option.case_cong if_cong)
  show "secrets_step cl (data\<lparr>SDK := s, Template := t\<rparr>) = secrets_step cl data"
    by (intro ext) (simp add: secrets_step_def Let_def cong: prod.case_cong http_result.case_cong option.case_cong if_cong)
  show "variables_step cl (data\<lparr>SDK := s, Template := t\<rparr>) = variables_step cl data"
    by (intro ext) (simp add: variables_step_def Let_def cong: prod.case_cong http_result.case_cong option.case_cong if_cong)
  show "hardware_step cl (data\<lparr>SDK := s, Template := t\<rparr>) = hardware_step cl data"
    by (intro ext) (simp add: hardware_step_def Let_def cong: prod.case_cong http_result.case_cong option.case_cong if_cong)
  show "storage_step cl (data\<lparr>SDK := s, Template := t\<rparr>) = storage_step cl data"
    by (intro ext) (simp add: storage_step_def Let_def cong: prod.case_cong http_result.case_cong option.case_cong if_cong)
  show "sleeptime_step cl (data\<lparr>SDK := s, Template := t\<rparr>) = sleeptime_step cl data"
    by (intro ext) (simp add: sleeptime_step_def Let_def cong: prod.case_cong http_result.case_cong option.case_cong if_cong)
qed

lemma secrets_stage_unmanaged:
  assumes "and_then (tr, st, d) (secrets_step cl data) = (tr', st', d')"
    and "IsNull (Secrets data) \<or> IsUnknown (Secrets data)"
  shows "tr' = tr" "st' = st" "d' = d"
proof -
  from secrets_stage [OF assms(1)] obtain new where
    "tr' = tr @ new"
    "IsNull (Secrets data) \<or> IsUnknown (Secrets data) \<longrightarrow> new = [] \<and> st' = st \<and> d' = d"
    by (elim exE conjE) (rule that)
  with assms(2) show "tr' = tr" "st' = st" "d' = d"
    by simp_all
qed

lemma variables_stage_unmanaged:
  assumes "and_then (tr, st, d) (variables_step cl data) = (tr', st', d')"
    and "IsNull (Variables data) \<or> IsUnknown (Variables data)"
  shows "tr' = tr" "st' = st" "d' = d"
proof -
  from variables_stage [OF assms(1)] obtain new where
    "tr' = tr @ new"
    "IsNull (Variables data) \<or> IsUnknown (Variables data) \<longrightarrow> new = [] \<and> st' = st \<and> d' = d"
    by (elim exE conjE) (rule that)
  with assms(2) show "tr' = tr" "st' = st" "d' = d"
    by simp_all
qed

lemma Update_run_segments:
  assumes "Update_run cl data state = (tr, st, d)"
  obtains n1 n2 n3 n4 n5 n6 n7 where
    "tr = n1 @ n2 @ n3 @ n4 @ n5 @ n6 @ n7"
    "\<forall>e\<in>set n1. url (fst e) = move_url"
    "\<forall>e\<in>set n2. url (fst e) = space_url (ValueString (ID data)) ''settings''"
    "\<forall>e\<in>set n3. url (fst e) = space_url (ValueString (ID data)) ''secrets''"
    "\<forall>e\<in>set n4. url (fst e) = space_url (ValueString (ID data)) ''variables''"
    "\<forall>e\<in>set n5. url (fst e) = space_url (ValueString (ID data)) ''hardware''"
    "\<forall>e\<in>set n6. url (fst e) = space_url (ValueString (ID data)) ''storage''"
    "\<forall>e\<in>set n7. url (fst e) = space_url (ValueString (ID data)) ''sleeptime''"
    "IsNull (Secrets data) \<or> IsUnknown (Secrets data) \<Longrightarrow> n3 = []"
    "IsNull (Variables data) \<or> IsUnknown (Variables data) \<Longrightarrow> n4 = []"
proof -
  obtain tr1 st1 d1 tr2 st2 d2 tr3 st3 d3 tr4 st4 d4 tr5 st5 d5 tr6 st6 d6 tr7 st7 d7 where
    s1: "and_then ([], state, None) (rename_step cl data) = (tr1, st1, d1)" and
    s2: "and_then (tr1, st1, d1) (visibility_step cl data) = (tr2, st2, d2)" and
    s3: "and_then (tr2, st2, d2) (secrets_step cl data) = (tr3, st3, d3)" and
    s4: "and_then (tr3, st3, d3) (variables_step cl data) = (tr4, st4, d4)" and
    s5: "and_then (tr4, st4, d4) (hardware_step cl data) = (tr5, st5, d5)" and
    s6: "and_then (tr5, st5, d5) (storage_step cl data) = (tr6, st6, d6)" and
    s7: "and_then (tr6, st6, d6) (sleeptime_step cl data) = (tr7, st7, d7)" and
    run: "Update_run cl data state = (tr7, st7, d7)"
    by (rule Update_run_stages)
  from rename_stage_calls [OF s1] obtain n1 where 1: "tr1 = [] @ n1"
    "\<forall>e\<in>set n1. url (fst e) = move_url" by blast
  from visibility_stage_calls [OF s2] obtain n2 where 2: "tr2 = tr1 @ n2"
    "\<forall>e\<in>set n2. url (fst e) = space_url (ValueString (ID data)) ''settings''" by blast
  from secrets_stage_calls [OF s3] obtain n3 where 3: "tr3 = tr2 @ n3"
    "\<forall>e\<in>set n3. url (fst e) = space_url (ValueString (ID data)) ''secrets''" by blast
  from variables_stage_calls [OF s4] obtain n4 where 4: "tr4 = tr3 @ n4"
    "\<forall>e\<in>set n4. url (fst e) = space_url (ValueString (ID data)) ''variables''" by blast
  from hardware_stage_calls [OF s5] obtain n5 where 5: "tr5 = tr4 @ n5"
    "\<forall>e\<in>set n5. url (fst e) = space_url (ValueString (ID data)) ''hardware''" by blast
  from storage_stage_calls [OF s6] obtain n6 where 6: "tr6 = tr5 @ n6"
    "\<forall>e\<in>set n6. url (fst e) = space_url (ValueString (ID data)) ''storage''" by blast
  from sleeptime_stage_calls [OF s7] obtain n7 where 7: "tr7 = tr6 @ n7"
    "\<forall>e\<in>set n7. url (fst e) = space_url (ValueString (ID data)) ''sleeptime''" by blast
  have a: "tr = n1 @ n2 @ n3 @ n4 @ n5 @ n6 @ n7"
    using run assms by (simp add: 1 2 3 4 5 6 7)
  have b: "n3 = []" if "IsNull (Secrets data) \<or> IsUnknown (Secrets data)"
    using secrets_stage_unmanaged(1) [OF s3 that] 3(1) by simp
  have c: "n4 = []" if "IsNull (Variables data) \<or> IsUnknown (Variables data)"
    using variables_stage_unmanaged(1) [OF s4 that] 4(1) by simp
  from a 1(2) 2(2) 3(2) 4(2) 5(2) 6(2) 7(2) b c show thesis
    by (rule that)
qed

lemma Update_run_unmanaged_frame:
  assumes "Update_run cl data state = (tr, st, d)"
  shows "IsNull (Secrets data) \<or> IsUnknown (Secrets data) \<Longrightarrow> Secrets st = Secrets state"
    and "IsNull (Variables data) \<or> IsUnknown (Variables data) \<Longrightarrow> Variables st = Variables state"
proof -
  obtain tr1 st1 d1 tr2 st2 d2 tr3 st3 d3 tr4 st4 d4 tr5 st5 d5 tr6 st6 d6 tr7 st7 d7 where
    s1: "and_then ([], state, None) (rename_step cl data) = (tr1, st1, d1)" and
    s2: "and_then (tr1, st1, d1) (visibility_step cl data) = (tr2, st2, d2)" and
    s3: "and_then (tr2, st2, d2) (secrets_step cl data) = (tr3, st3, d3)" and
    s4: "and_then (tr3, st3, d3) (variables_step cl data) = (tr4, st4, d4)" and
    s5: "and_then (tr4, st4, d4) (hardware_step cl data) = (tr5, st5, d5)" and
    s6: "and_then (tr5, st5, d5) (storage_step cl data) = (tr6, st6, d6)" and
    s7: "and_then (tr6, st6, d6) (sleeptime_step cl data) = (tr7, st7, d7)" and
    run: "Update_run cl data state = (tr7, st7, d7)"
    by (rule Update_run_stages)
  from rename_stage_frame [OF s1] obtain i n where 1: "st1 = state\<lparr>ID := i, Name := n\<rparr>" by blast
  from visibility_stage_frame [OF s2] have 2: "st2 = st1" by blast
  from secrets_stage_frame [OF s3] obtain sec where 3: "st3 = st2\<lparr>Secrets := sec\<rparr>" by blast
  from variables_stage_frame [OF s4] obtain var where 4: "st4 = st3\<lparr>Variables := var\<rparr>" by blast
  from hardware_stage_frame [OF s5] obtain hw where 5: "st5 = st4\<lparr>Hardware := hw\<rparr>" by blast
  from storage_stage_frame [OF s6] obtain sto where 6: "st6 = st5\<lparr>Storage := sto\<rparr>" by blast
  from sleeptime_stage_frame [OF s7] obtain sl where 7: "st7 = st6\<lparr>SleepTime := sl\<rparr>" by blast
  from run assms have st: "st = st7" by simp
  show "Secrets st = Secrets state" if "IsNull (Secrets data) \<or> IsUnknown (Secrets data)"
    using secrets_stage_unmanaged(2) [OF s3 that] by (simp add: st 1 2 4 5 6 7)
  show "Variables st = Variables state" if "IsNull (Variables data) \<or> IsUnknown (Variables data)"
    using variables_stage_unmanaged(2) [OF s4 that] by (simp add: st 1 2 3 5 6 7)
qed

lemma secrets_stage_managed:
  assumes "and_then (tr, st, None) (secrets_step cl data) = (tr', st', d')"
    and "Secrets data = TfValue desired"
  obtains dels adds where
    "tr' = tr @ (Request GET (space_url (ValueString (ID data)) ''secrets'') [],
                 cl tr (Request GET (space_url (ValueString (ID data)) ''secrets'') [])) # dels @ adds"
    "collection_segment (space_url (ValueString (ID data)) ''secrets'') RetrieveSecrets desired
       (cl tr (Request GET (space_url (ValueString (ID data)) ''secrets'') [])) dels adds d'"
    "d' = None \<longrightarrow> st' = st\<lparr>Secrets := TfValue desired\<rparr>"
    "d' \<noteq> None \<longrightarrow> st' = st"
proof -
  from secrets_stage [OF assms(1)] obtain new where
    new: "tr' = tr @ new" "d' \<noteq> None \<longrightarrow> st' = st"
    "\<forall>desired. None = (None :: diag option) \<and> Secrets data = TfValue desired \<longrightarrow>
        (d' = None \<longrightarrow> st' = st\<lparr>Secrets := TfValue desired\<rparr>) \<and>
        (\<exists>dels adds.
           new = (Request GET (space_url (ValueString (ID data)) ''secrets'') [],
                  cl tr (Request GET (space_url (ValueString (ID data)) ''secrets'') [])) # dels @ adds \<and>
           collection_segment (space_url (ValueString (ID data)) ''secrets'') RetrieveSecrets desired
             (cl tr (Request GET (space_url (ValueString (ID data)) ''secrets'') [])) dels adds d')"
    by (elim exE conjE) (rule that)
  from new(3) assms(2) have a: "d' = None \<longrightarrow> st' = st\<lparr>Secrets := TfValue desired\<rparr>"
    by simp
  from new(3) assms(2) obtain dels adds where
    "new = (Request GET (space_url (ValueString (ID data)) ''secrets'') [],
                  cl tr (Request GET (space_url (ValueString (ID data)) ''secrets'') [])) # dels @ adds"
    "collection_segment (space_url (ValueString (ID data)) ''secrets'') RetrieveSecrets desired
             (cl tr (Request GET (space_url (ValueString (ID data)) ''secrets'') [])) dels adds d'"
    by (elim allE [of _ desired]) auto
  with new(1,2) a show thesis
    by (intro that [of dels adds]) simp_all
qed


lemma filter_url_same:
  "\<forall>e\<in>set xs. url (fst e) = u \<Longrightarrow> filter (\<lambda>e. url (fst e) = u) xs = xs"
  by (simp add: filter_id_conv)

lemma filter_url_other:
  "\<forall>e\<in>set xs. url (fst e) = v \<Longrightarrow> v \<noteq> u \<Longrightarrow> filter (\<lambda>e. url (fst e) = u) xs = []"
  by (simp add: filter_empty_conv)

lemma rename_stage_drift:
  assumes "and_then (tr, st, None) (rename_step cl data) = (tr', st', None)"
    and "ValueString (Name st) \<noteq> ValueString (Name data)"
  shows "\<exists>b. tr' = tr @ [(Request POST move_url
            (move_body (ValueString (ID st))
               (move_target (ValueString (ID st)) (ValueString (Name data)))),
          Response StatusOK b)] \<and> b \<noteq> BodyReadError"
  using assms
  by (auto simp: and_then_None rename_step_def send_def Let_def
      split: http_result.splits if_splits)

lemma hardware_stage_call:
  assumes "and_then (tr, st, d) (hardware_step cl data) = (tr', st', d')"
  obtains new where "tr' = tr @ new"
    "new \<noteq> [] \<longrightarrow> d = None \<and>
       new = [(Request POST (space_url (ValueString (ID data)) ''hardware'')
                  (hardware_body (ValueString (Hardware data))),
               cl tr (Request POST (space_url (ValueString (ID data)) ''hardware'')
                  (hardware_body (ValueString (Hardware data)))))] \<and>
       (cl tr (Request POST (space_url (ValueString (ID data)) ''hardware'')
                  (hardware_body (ValueString (Hardware data)))) = TransportError \<longrightarrow>
           d' = Some (ClientError UpdateHardware)) \<and>
       (\<forall>s b. cl tr (Request POST (space_url (ValueString (ID data)) ''hardware'')
                  (hardware_body (ValueString (Hardware data)))) = Response s b \<and> s \<noteq> StatusOK \<longrightarrow>
           d' = Some (APIError UpdateHardware s))"
    "d' \<noteq> None \<longrightarrow> st' = st"
proof -
  let ?req = "Request POST (space_url (ValueString (ID data)) ''hardware'')
                  (hardware_body (ValueString (Hardware data)))"
  from hardware_stage [OF assms] obtain new where
    new: "tr' = tr @ new"
      "d \<noteq> None \<longrightarrow> new = [] \<and> d' = d"
      "d' \<noteq> None \<longrightarrow> st' = st"
      "ValueString (Hardware st) = ValueString (Hardware data) \<longrightarrow> new = [] \<and> st' = st \<and> d' = d"
      "d = None \<and> ValueString (Hardware st) \<noteq> ValueString (Hardware data) \<longrightarrow>
        new = [(?req, cl tr ?req)] \<and>
        (d' = None \<longrightarrow> st' = st\<lparr>Hardware := Hardware data\<rparr>) \<and>
        (cl tr ?req = TransportError \<longrightarrow> d' = Some (ClientError UpdateHardware)) \<and>
        (\<forall>s b. cl tr ?req = Response s b \<and> s \<noteq> StatusOK \<longrightarrow> d' = Some (APIError UpdateHardware s))"
    by (elim exE conjE) (rule that)
  show thesis
  proof (rule that [of new])
    show "tr' = tr @ new" by (rule new(1))
    show "d' \<noteq> None \<longrightarrow> st' = st" by (rule new(3))
    show "new \<noteq> [] \<longrightarrow> d = None \<and> new = [(?req, cl tr ?req)] \<and>
       (cl tr ?req = TransportError \<longrightarrow> d' = Some (ClientError UpdateHardware)) \<and>
       (\<forall>s b. cl tr ?req = Response s b \<and> s \<noteq> StatusOK \<longrightarrow> d' = Some (APIError UpdateHardware s))"
    proof
      assume ne: "new \<noteq> []"
      with new(2) have d: "d = None" by auto
      from ne new(4) have "ValueString (Hardware st) \<noteq> ValueString (Hardware data)" by auto
      with d new(5) show "d = None \<and> new = [(?req, cl tr ?req)] \<and>
       (cl tr ?req = TransportError \<longrightarrow> d' = Some (ClientError UpdateHardware)) \<and>
       (\<forall>s b. cl tr ?req = Response s b \<and> s \<noteq> StatusOK \<longrightarrow> d' = Some (APIError UpdateHardware s))"
        by simp
    qed
  qed
qed

lemma stage_aborted:
  "and_then (tr, st, Some e) f = (tr', st', d') \<Longrightarrow> tr' = tr \<and> st' = st \<and> d' = Some e"
  by (simp add: and_then_Some)



lemma post_entries_diag:
  "post_entries cl u a tr kvs = (tr', Some d) \<Longrightarrow> d = ClientError a \<or> (\<exists>s. d = APIError a s)"
proof (induction kvs arbitrary: tr)
  case Nil
  then show ?case by simp
next
  case (Cons kv kvs)
  obtain key val where kv: "kv = (key, val)" by (cases kv)
  show ?case
  proof (cases "\<exists>b. cl tr (add_request u kv) = Response StatusOK b")
    case True
    with Cons.prems kv
    have "post_entries cl u a (tr @ [(add_request u kv, cl tr (add_request u kv))]) kvs = (tr', Some d)"
      by (auto simp: send_def)
    then show ?thesis by (rule Cons.IH)
  next
    case False
    with Cons.prems kv show ?thesis
      by (auto simp: send_def split: http_result.splits if_splits)
  qed
qed

lemma create_entries_result:
  "failure (create_entries cl tr data) \<noteq> Some InvalidResponse"
  "new_state (create_entries cl tr data) = Some st \<Longrightarrow> st = data"
proof -
  let ?r1 = "if \<not> IsNull (Secrets data) \<and> \<not> IsUnknown (Secrets data)
            then post_entries cl (space_url (ValueString (ID data)) ''secrets'') AddSecret tr
                   (Elements (Secrets data))
            else (tr, None)"
  obtain tr1 d1 where r1: "?r1 = (tr1, d1)" by (cases ?r1)
  let ?r2 = "if \<not> IsNull (Variables data) \<and> \<not> IsUnknown (Variables data)
                 then post_entries cl (space_url (ValueString (ID data)) ''variables'') AddVariable tr1
                        (Elements (Variables data))
                 else (tr1, None)"
  obtain tr2 d2 where r2: "?r2 = (tr2, d2)" by (cases ?r2)
  have n1: "d1 \<noteq> Some InvalidResponse"
    using r1 post_entries_diag [of cl _ AddSecret tr _ tr1 InvalidResponse]
    by (auto split: if_splits)
  have n2: "d2 \<noteq> Some InvalidResponse"
    using r2 post_entries_diag [of cl _ AddVariable tr1 _ tr2 InvalidResponse]
    by (auto split: if_splits)
  have ce: "create_entries cl tr data =
     (case d1 of Some d \<Rightarrow> failed tr1 d
      | None \<Rightarrow> (case d2 of Some d \<Rightarrow> failed tr2 d
                 | None \<Rightarrow> \<lparr>exchanges = tr2, failure = None, new_state = Some data\<rparr>))"
    unfolding create_entries_def r1 using r2 by (simp split: option.splits)
  show "failure (create_entries cl tr data) \<noteq> Some InvalidResponse"
    unfolding ce using n1 n2 by (auto simp: failed_def split: option.splits)
  show "new_state (create_entries cl tr data) = Some st \<Longrightarrow> st = data"
    unfolding ce by (auto simp: failed_def split: option.splits)
qed

lemma name_of_response_None:
  "name_of_response responseData = None \<longleftrightarrow>
     (\<forall>s. map_of responseData ''name'' \<noteq> Some (JString s))"
  by (auto split: option.splits json.splits)

lemma name_of_response_Some:
  "name_of_response responseData = Some s \<longleftrightarrow> map_of responseData ''name'' = Some (JString s)"
  by (auto split: option.splits json.splits)

section \<open>Properties of the reading\<close>




lemma char_of_48: "char_of (48::nat) = CHR ''0''"
proof -
  have "char_of (of_char (CHR ''0'') :: nat) = CHR ''0''" by (rule char_of_char)
  then show ?thesis by simp
qed

lemma of_char_digit_char: "d < 10 \<Longrightarrow> (of_char (digit_char d) :: nat) = 48 + d"
  by (simp add: digit_char_def)

lemma is_digit_digit_char: "d < 10 \<Longrightarrow> is_digit (digit_char d)"
  by (simp add: is_digit_def of_char_digit_char)

lemma digit_char_zero: "d < 10 \<Longrightarrow> digit_char d = CHR ''0'' \<longleftrightarrow> d = 0"
proof
  assume d: "d < 10" and "digit_char d = CHR ''0''"
  then have "(of_char (digit_char d) :: nat) = of_char (CHR ''0'')" by simp
  with d show "d = 0" by (simp add: of_char_digit_char)
next
  assume "d = 0"
  then show "digit_char d = CHR ''0''" by (simp add: digit_char_def char_of_48)
qed

lemma fmt_nat_digits: "list_all is_digit (fmt_nat n)"
proof (induction n rule: fmt_nat.induct)
  case (1 n)
  show ?case
  proof (cases "n < 10")
    case True
    then show ?thesis by (simp add: fmt_nat.simps [of n] is_digit_digit_char)
  next
    case False
    with 1 show ?thesis by (simp add: fmt_nat.simps [of n] is_digit_digit_char)
  qed
qed

lemma fmt_nat_not_Nil: "fmt_nat n \<noteq> []"
  by (simp add: fmt_nat.simps [of n])

lemma nat_of_digits_snoc:
  "nat_of_digits (ds @ [c]) = 10 * nat_of_digits ds + (of_char c - 48)"
  by (simp add: nat_of_digits_def)

lemma nat_of_digits_fmt_nat: "nat_of_digits (fmt_nat n) = n"
proof (induction n rule: fmt_nat.induct)
  case (1 n)
  show ?case
  proof (cases "n < 10")
    case True
    then show ?thesis
      by (simp add: fmt_nat.simps [of n] nat_of_digits_def of_char_digit_char)
  next
    case False
    with 1 have "nat_of_digits (fmt_nat (n div 10)) = n div 10" by simp
    with False show ?thesis
      by (simp add: fmt_nat.simps [of n] nat_of_digits_snoc of_char_digit_char)
  qed
qed

lemma hd_fmt_nat: "0 < n \<Longrightarrow> hd (fmt_nat n) \<noteq> CHR ''0''"
proof (induction n rule: fmt_nat.induct)
  case (1 n)
  show ?case
  proof (cases "n < 10")
    case True
    with 1(2) show ?thesis
      by (simp add: fmt_nat.simps [of n] digit_char_zero)
  next
    case False
    then have "0 < n div 10" by simp
    with 1(1) False have "hd (fmt_nat (n div 10)) \<noteq> CHR ''0''" by simp
    with False show ?thesis
      by (simp add: fmt_nat.simps [of n] fmt_nat_not_Nil)
  qed
qed

lemma valid_digits_fmt_nat: "valid_digits (fmt_nat n)"
proof (cases "n = 0")
  case True
  then show ?thesis
    by (simp add: valid_digits_def fmt_nat.simps [of 0] is_digit_def digit_char_def)
next
  case False
  then show ?thesis
    by (simp add: valid_digits_def fmt_nat_not_Nil fmt_nat_digits hd_fmt_nat)
qed

lemma digit_neq: "is_digit c \<Longrightarrow> \<not> is_digit x \<Longrightarrow> c \<noteq> x"
  by auto

lemma int_of_literal_fmt_int [simp]: "int_of_literal (fmt_int i) = Some i"
proof (cases "i < 0")
  case True
  then show ?thesis
    by (simp add: int_of_literal_def fmt_int_def valid_digits_fmt_nat nat_of_digits_fmt_nat)
next
  case False
  obtain d ds where f: "fmt_nat (nat i) = d # ds"
    using fmt_nat_not_Nil [of "nat i"] by (cases "fmt_nat (nat i)") auto
  from fmt_nat_digits [of "nat i"] f have "is_digit d" by simp
  then have "d \<noteq> CHR ''-''" by (rule digit_neq) (simp add: is_digit_def)
  with False show ?thesis
    using valid_digits_fmt_nat [of "nat i"] nat_of_digits_fmt_nat [of "nat i"] f
    by (simp add: int_of_literal_def fmt_int_def)
qed



















section \<open>The claims\<close>

subsection \<open>C1\<close>

text \<open>
  C1 fails on the code.  With a rename and a hardware change in one pass, the rename is
  called first, but the hardware address is built from \<open>data.ID\<close>, the identifier of the
  plan (which the schema copies from the prior state), and not from the identifier the
  rename produced, which only \<open>state.ID\<close> holds.
\<close>

theorem Update_rename_hardware_stale_id:
  "map (\<lambda>e. (verb (fst e), url (fst e))) (calls (Update ok_client plan_rename_hardware space0)) =
     [(POST, ''https://huggingface.co/api/repos/move''),
      (POST, ''https://huggingface.co/api/spaces/alice/demo/hardware'')] \<and>
   ID (working (Update ok_client plan_rename_hardware space0)) = TfValue ''alice/renamed'' \<and>
   space_url ''alice/renamed'' ''hardware'' =
     ''https://huggingface.co/api/spaces/alice/renamed/hardware''"
  by (simp add: eval_defs Let_def plan_rename_hardware_def)

subsection \<open>C2\<close>




subsection \<open>C3\<close>

text \<open>
  C3 fails on the code for the visibility.  The PUT succeeds, no diagnostic is raised, and
  the state that is set still carries the old value of \<open>private\<close>: lines 398 to 432 never
  assign \<open>state.Private\<close>, unlike the blocks for name, hardware, storage and sleep time.
\<close>

theorem Update_visibility_not_written_back:
  "map (\<lambda>e. (verb (fst e), url (fst e), body (fst e), snd e))
       (calls (Update ok_client plan_private space0)) =
     [(PUT, ''https://huggingface.co/api/spaces/alice/demo/settings'', private_body True,
       Response 200 (BodyJSON (JObject [])))] \<and>
   diagnostic (Update ok_client plan_private space0) = None \<and>
   Private plan_private = TfValue True \<and>
   map_option Private (resp_state (Update ok_client plan_private space0)) = Some (TfValue False)"
  by (simp add: eval_defs plan_private_def)

subsection \<open>C4\<close>

text \<open>
  C4.  Let the desired secrets map be known, and let \<open>Update\<close> succeed (a state is set).
  Then its calls to the address of the secrets are, in this order: one fetch, a deletion
  for every key of the fetched listing (when the fetch was answered 200 with a listing),
  and an addition for every desired entry, each answered 200; and the secrets of the state
  that is set are exactly the desired map.  No second fetch takes place.
\<close>

theorem Update_secrets_replace_all:
  assumes "Secrets data = TfValue desired"
    and "resp_state (Update cl data state) = Some st"
  shows "\<exists>res dels adds.
     filter (\<lambda>e. url (fst e) = space_url (ValueString (ID data)) ''secrets'')
       (calls (Update cl data state)) =
       (Request GET (space_url (ValueString (ID data)) ''secrets'') [], res) # dels @ adds \<and>
     map fst adds = map (add_request (space_url (ValueString (ID data)) ''secrets'')) desired \<and>
     (\<forall>b listed. res = Response StatusOK b \<and> decode_object b = Some listed \<longrightarrow>
        map fst dels =
          map (delete_request (space_url (ValueString (ID data)) ''secrets'')) (map fst listed)) \<and>
     (dels \<noteq> [] \<longrightarrow> (\<exists>b. res = Response StatusOK b)) \<and>
     (\<forall>e\<in>set (dels @ adds). \<exists>b. snd e = Response StatusOK b) \<and>
     Secrets st = TfValue desired"
proof -
  let ?u = "space_url (ValueString (ID data)) ''secrets''"
  obtain tr1 st1 d1 tr2 st2 d2 tr3 st3 d3 tr4 st4 d4 tr5 st5 d5 tr6 st6 d6 tr7 st7 d7 where
    s1: "and_then ([], state, None) (rename_step cl data) = (tr1, st1, d1)" and
    s2: "and_then (tr1, st1, d1) (visibility_step cl data) = (tr2, st2, d2)" and
    s3: "and_then (tr2, st2, d2) (secrets_step cl data) = (tr3, st3, d3)" and
    s4: "and_then (tr3, st3, d3) (variables_step cl data) = (tr4, st4, d4)" and
    s5: "and_then (tr4, st4, d4) (hardware_step cl data) = (tr5, st5, d5)" and
    s6: "and_then (tr5, st5, d5) (storage_step cl data) = (tr6, st6, d6)" and
    s7: "and_then (tr6, st6, d6) (sleeptime_step cl data) = (tr7, st7, d7)" and
    run: "Update_run cl data state = (tr7, st7, d7)"
    by (rule Update_run_stages)
  from assms(2) have ok: "d7 = None" "st = st7"
    by (auto simp: Update_fields run split: option.splits)
  from sleeptime_stage_calls [OF s7] obtain n7 where 7: "tr7 = tr6 @ n7"
    "\<forall>e\<in>set n7. url (fst e) = space_url (ValueString (ID data)) ''sleeptime''"
    "d7 = None \<longrightarrow> d6 = None" by blast
  from storage_stage_calls [OF s6] obtain n6 where 6: "tr6 = tr5 @ n6"
    "\<forall>e\<in>set n6. url (fst e) = space_url (ValueString (ID data)) ''storage''"
    "d6 = None \<longrightarrow> d5 = None" by blast
  from hardware_stage_calls [OF s5] obtain n5 where 5: "tr5 = tr4 @ n5"
    "\<forall>e\<in>set n5. url (fst e) = space_url (ValueString (ID data)) ''hardware''"
    "d5 = None \<longrightarrow> d4 = None" by blast
  from variables_stage_calls [OF s4] obtain n4 where 4: "tr4 = tr3 @ n4"
    "\<forall>e\<in>set n4. url (fst e) = space_url (ValueString (ID data)) ''variables''"
    "d4 = None \<longrightarrow> d3 = None" by blast
  from secrets_stage_calls [OF s3] have 3: "d3 = None \<longrightarrow> d2 = None" by blast
  from visibility_stage_calls [OF s2] obtain n2 where 2: "tr2 = tr1 @ n2"
    "\<forall>e\<in>set n2. url (fst e) = space_url (ValueString (ID data)) ''settings''" by blast
  from rename_stage_calls [OF s1] obtain n1 where 1: "tr1 = [] @ n1"
    "\<forall>e\<in>set n1. url (fst e) = move_url" by blast
  from ok 7(3) 6(3) 5(3) 4(3) 3 have d: "d3 = None" "d2 = None" by simp_all
  from s3 d have s3': "and_then (tr2, st2, None) (secrets_step cl data) = (tr3, st3, d3)"
    by simp
  from secrets_stage_managed [OF s3' assms(1)] obtain dels adds where
    seg: "tr3 = tr2 @ (Request GET ?u [], cl tr2 (Request GET ?u [])) # dels @ adds"
      "collection_segment ?u RetrieveSecrets desired (cl tr2 (Request GET ?u [])) dels adds d3"
      "d3 = None \<longrightarrow> st3 = st2\<lparr>Secrets := TfValue desired\<rparr>"
    by blast
  let ?n3 = "(Request GET ?u [], cl tr2 (Request GET ?u [])) # dels @ adds"
  have n3: "\<forall>e\<in>set ?n3. url (fst e) = ?u"
    by (rule collection_segment_urls [OF seg(2)])
  have calls: "calls (Update cl data state) = n1 @ n2 @ ?n3 @ n4 @ n5 @ n6 @ n7"
    by (simp add: Update_fields run 7(1) 6(1) 5(1) 4(1) seg(1) 2(1) 1(1))
  have o: "filter (\<lambda>e. url (fst e) = ?u) n1 = []" "filter (\<lambda>e. url (fst e) = ?u) n2 = []"
    "filter (\<lambda>e. url (fst e) = ?u) n4 = []" "filter (\<lambda>e. url (fst e) = ?u) n5 = []"
    "filter (\<lambda>e. url (fst e) = ?u) n6 = []" "filter (\<lambda>e. url (fst e) = ?u) n7 = []"
    using filter_url_other [OF 1(2), of ?u] filter_url_other [OF 2(2), of ?u]
      filter_url_other [OF 4(2), of ?u] filter_url_other [OF 5(2), of ?u]
      filter_url_other [OF 6(2), of ?u] filter_url_other [OF 7(2), of ?u]
    by simp_all
  have f: "filter (\<lambda>e. url (fst e) = ?u) (calls (Update cl data state)) = ?n3"
    unfolding calls filter_append o filter_url_same [OF n3] by simp
  from variables_stage_frame [OF s4] obtain var where f4: "st4 = st3\<lparr>Variables := var\<rparr>" by blast
  from hardware_stage_frame [OF s5] obtain hw where f5: "st5 = st4\<lparr>Hardware := hw\<rparr>" by blast
  from storage_stage_frame [OF s6] obtain sto where f6: "st6 = st5\<lparr>Storage := sto\<rparr>" by blast
  from sleeptime_stage_frame [OF s7] obtain sl where f7: "st7 = st6\<lparr>SleepTime := sl\<rparr>" by blast
  from seg(3) d have "Secrets st3 = TfValue desired" by simp
  then have sec: "Secrets st = TfValue desired"
    by (simp add: ok f4 f5 f6 f7)
  from seg(2) d have shape:
    "map fst adds = map (add_request ?u) desired"
    "\<forall>b listed. cl tr2 (Request GET ?u []) = Response StatusOK b \<and> decode_object b = Some listed \<longrightarrow>
        map fst dels = map (delete_request ?u) (map fst listed)"
    "dels \<noteq> [] \<longrightarrow> (\<exists>b. cl tr2 (Request GET ?u []) = Response StatusOK b)"
    "\<forall>e\<in>set (dels @ adds). \<exists>b. snd e = Response StatusOK b"
    unfolding collection_segment_def by blast+
  show ?thesis
    by (rule exI [of _ "cl tr2 (Request GET ?u [])"], rule exI [of _ dels], rule exI [of _ adds])
      (use f shape sec in blast)
qed

theorem Update_secrets_replace_all_witness:
  "Secrets plan_bc = TfValue [(''b'', TfValue ''2''), (''c'', TfValue ''3'')] \<and>
   resp_state (Update listing_client plan_bc space_ab) \<noteq> None \<and>
   map (\<lambda>e. (verb (fst e), body (fst e)))
     (filter (\<lambda>e. url (fst e) = ''https://huggingface.co/api/spaces/alice/demo/secrets'')
        (calls (Update listing_client plan_bc space_ab))) =
     [(GET, []), (DELETE, delete_key_body ''a''), (DELETE, delete_key_body ''b''),
      (POST, entry_body ''b'' ''2''), (POST, entry_body ''c'' ''3'')] \<and>
   map_option Secrets (resp_state (Update listing_client plan_bc space_ab)) =
     Some (TfValue [(''b'', TfValue ''2''), (''c'', TfValue ''3'')])"
proof -
  have h1: "Secrets plan_bc = TfValue [(''b'', TfValue ''2''), (''c'', TfValue ''3'')]"
    by (simp add: plan_bc_def space0_def)
  have ev: "calls (Update listing_client plan_bc space_ab) =
     [(Request GET ''https://huggingface.co/api/spaces/alice/demo/secrets'' [],
         Response 200 (BodyJSON (JObject [(''a'', JString ''1''), (''b'', JString ''2'')]))),
      (Request DELETE ''https://huggingface.co/api/spaces/alice/demo/secrets'' (delete_key_body ''a''),
         Response 200 (BodyJSON (JObject []))),
      (Request DELETE ''https://huggingface.co/api/spaces/alice/demo/secrets'' (delete_key_body ''b''),
         Response 200 (BodyJSON (JObject []))),
      (Request POST ''https://huggingface.co/api/spaces/alice/demo/secrets'' (entry_body ''b'' ''2''),
         Response 200 (BodyJSON (JObject []))),
      (Request POST ''https://huggingface.co/api/spaces/alice/demo/secrets'' (entry_body ''c'' ''3''),
         Response 200 (BodyJSON (JObject [])))]"
    "diagnostic (Update listing_client plan_bc space_ab) = None"
    by (simp_all add: Update_def Update_run_def step_defs StatusOK_def listing_client_def
        plan_bc_def space_ab_def space0_def Request_def add_request_def delete_request_def
        space_url_def)
  from ev(2) obtain st where h2: "resp_state (Update listing_client plan_bc space_ab) = Some st"
    by (auto simp: Update_fields split: option.splits)
  from Update_secrets_replace_all [OF h1 h2]
  have "Secrets st = TfValue [(''b'', TfValue ''2''), (''c'', TfValue ''3'')]"
    by blast
  with h1 h2 show ?thesis
    by (simp add: ev(1))
qed

subsection \<open>C5\<close>

text \<open>
  C5.  When the desired secrets map is null or unknown, \<open>Update\<close> makes no call to the
  address of the secrets, and the secrets of the working copy, hence of any state that is
  set, are those of the prior state; the same holds for the variables.
\<close>

theorem Update_unmanaged_untouched:
  "(IsNull (Secrets data) \<or> IsUnknown (Secrets data) \<longrightarrow>
      (\<forall>e\<in>set (calls (Update cl data state)).
          url (fst e) \<noteq> space_url (ValueString (ID data)) ''secrets'') \<and>
      Secrets (working (Update cl data state)) = Secrets state \<and>
      (\<forall>st. resp_state (Update cl data state) = Some st \<longrightarrow> Secrets st = Secrets state)) \<and>
   (IsNull (Variables data) \<or> IsUnknown (Variables data) \<longrightarrow>
      (\<forall>e\<in>set (calls (Update cl data state)).
          url (fst e) \<noteq> space_url (ValueString (ID data)) ''variables'') \<and>
      Variables (working (Update cl data state)) = Variables state \<and>
      (\<forall>st. resp_state (Update cl data state) = Some st \<longrightarrow> Variables st = Variables state))"
proof -
  obtain tr st d where run: "Update_run cl data state = (tr, st, d)"
    using prod_cases3 by blast
  have w: "working (Update cl data state) = st" "calls (Update cl data state) = tr"
    by (simp_all add: Update_fields run)
  from Update_run_segments [OF run] obtain n1 n2 n3 n4 n5 n6 n7 where seg:
    "tr = n1 @ n2 @ n3 @ n4 @ n5 @ n6 @ n7"
    "\<forall>e\<in>set n1. url (fst e) = move_url"
    "\<forall>e\<in>set n2. url (fst e) = space_url (ValueString (ID data)) ''settings''"
    "\<forall>e\<in>set n3. url (fst e) = space_url (ValueString (ID data)) ''secrets''"
    "\<forall>e\<in>set n4. url (fst e) = space_url (ValueString (ID data)) ''variables''"
    "\<forall>e\<in>set n5. url (fst e) = space_url (ValueString (ID data)) ''hardware''"
    "\<forall>e\<in>set n6. url (fst e) = space_url (ValueString (ID data)) ''storage''"
    "\<forall>e\<in>set n7. url (fst e) = space_url (ValueString (ID data)) ''sleeptime''"
    "IsNull (Secrets data) \<or> IsUnknown (Secrets data) \<Longrightarrow> n3 = []"
    "IsNull (Variables data) \<or> IsUnknown (Variables data) \<Longrightarrow> n4 = []"
    by blast
  have sec: "\<forall>e\<in>set tr. url (fst e) \<noteq> space_url (ValueString (ID data)) ''secrets''"
    if "IsNull (Secrets data) \<or> IsUnknown (Secrets data)"
    using seg(9) [OF that] seg(2,3,5,6,7,8) unfolding seg(1) by auto
  have var: "\<forall>e\<in>set tr. url (fst e) \<noteq> space_url (ValueString (ID data)) ''variables''"
    if "IsNull (Variables data) \<or> IsUnknown (Variables data)"
    using seg(10) [OF that] seg(2,3,4,6,7,8) unfolding seg(1) by auto
  note fr = Update_run_unmanaged_frame [OF run]
  show ?thesis
    using sec var fr resp_state_working [of cl data state] unfolding w by auto
qed

theorem Update_unmanaged_untouched_witness:
  "IsNull (Secrets plan_rename_hardware) \<and>
   length (calls (Update ok_client plan_rename_hardware space0)) = 2 \<and>
   filter (\<lambda>e. url (fst e) = ''https://huggingface.co/api/spaces/alice/demo/secrets'')
     (calls (Update ok_client plan_rename_hardware space0)) = [] \<and>
   map_option Secrets (resp_state (Update ok_client plan_rename_hardware space0)) = Some TfNull"
proof -
  have n: "IsNull (Secrets plan_rename_hardware)" "Secrets space0 = TfNull"
    "space_url (ValueString (ID plan_rename_hardware)) ''secrets'' =
       ''https://huggingface.co/api/spaces/alice/demo/secrets''"
    by (simp_all add: plan_rename_hardware_def space0_def space_url_def)
  have r: "resp_state (Update ok_client plan_rename_hardware space0) \<noteq> None"
    "length (calls (Update ok_client plan_rename_hardware space0)) = 2"
    by (simp_all add: eval_defs Let_def plan_rename_hardware_def)
  from Update_unmanaged_untouched [of plan_rename_hardware ok_client space0] n r
  show ?thesis by (auto simp: filter_empty_conv)
qed

subsection \<open>C6\<close>

text \<open>
  C6, as amended.  Let the name differ between plan and state, and let the hardware call
  of \<open>Update\<close> be answered by a transport error or by a status other than 200.  Then the
  rename was called first and answered 200; \<open>Update\<close> returns the diagnostic of the
  hardware call, which is its last call; it calls neither the storage nor the sleep time
  address; and it sets no state.  The new identifier and name stand only in the local
  working copy, which is dropped with the return.
\<close>

theorem Update_hardware_failure_after_rename:
  assumes "ValueString (Name state) \<noteq> ValueString (Name data)"
    and "(Request POST (space_url (ValueString (ID data)) ''hardware'')
            (hardware_body (ValueString (Hardware data))), res)
          \<in> set (calls (Update cl data state))"
    and "res = TransportError \<or> (\<exists>s b. res = Response s b \<and> s \<noteq> StatusOK)"
  shows "diagnostic (Update cl data state) =
       Some (case res of TransportError \<Rightarrow> ClientError UpdateHardware
                       | Response s b \<Rightarrow> APIError UpdateHardware s) \<and>
     resp_state (Update cl data state) = None \<and>
     last (calls (Update cl data state)) =
       (Request POST (space_url (ValueString (ID data)) ''hardware'')
          (hardware_body (ValueString (Hardware data))), res) \<and>
     (\<exists>b rest. calls (Update cl data state) =
        (Request POST move_url
           (move_body (ValueString (ID state))
              (move_target (ValueString (ID state)) (ValueString (Name data)))),
         Response StatusOK b) # rest) \<and>
     (\<forall>e\<in>set (calls (Update cl data state)).
        url (fst e) \<noteq> space_url (ValueString (ID data)) ''storage'' \<and>
        url (fst e) \<noteq> space_url (ValueString (ID data)) ''sleeptime'') \<and>
     ID (working (Update cl data state)) =
       TfValue (move_target (ValueString (ID state)) (ValueString (Name data))) \<and>
     Name (working (Update cl data state)) = Name data"
proof -
  let ?hw = "Request POST (space_url (ValueString (ID data)) ''hardware'')
            (hardware_body (ValueString (Hardware data)))"
  let ?target = "move_target (ValueString (ID state)) (ValueString (Name data))"
  let ?mv = "Request POST move_url (move_body (ValueString (ID state)) ?target)"
  obtain tr1 st1 d1 tr2 st2 d2 tr3 st3 d3 tr4 st4 d4 tr5 st5 d5 tr6 st6 d6 tr7 st7 d7 where
    s1: "and_then ([], state, None) (rename_step cl data) = (tr1, st1, d1)" and
    s2: "and_then (tr1, st1, d1) (visibility_step cl data) = (tr2, st2, d2)" and
    s3: "and_then (tr2, st2, d2) (secrets_step cl data) = (tr3, st3, d3)" and
    s4: "and_then (tr3, st3, d3) (variables_step cl data) = (tr4, st4, d4)" and
    s5: "and_then (tr4, st4, d4) (hardware_step cl data) = (tr5, st5, d5)" and
    s6: "and_then (tr5, st5, d5) (storage_step cl data) = (tr6, st6, d6)" and
    s7: "and_then (tr6, st6, d6) (sleeptime_step cl data) = (tr7, st7, d7)" and
    run: "Update_run cl data state = (tr7, st7, d7)"
    by (rule Update_run_stages)
  from rename_stage_calls [OF s1] obtain n1 where 1: "tr1 = [] @ n1"
    "\<forall>e\<in>set n1. url (fst e) = move_url" by blast
  from visibility_stage_calls [OF s2] obtain n2 where 2: "tr2 = tr1 @ n2"
    "\<forall>e\<in>set n2. url (fst e) = space_url (ValueString (ID data)) ''settings''"
    "d2 = None \<longrightarrow> d1 = None" by blast
  from secrets_stage_calls [OF s3] obtain n3 where 3: "tr3 = tr2 @ n3"
    "\<forall>e\<in>set n3. url (fst e) = space_url (ValueString (ID data)) ''secrets''"
    "d3 = None \<longrightarrow> d2 = None" by blast
  from variables_stage_calls [OF s4] obtain n4 where 4: "tr4 = tr3 @ n4"
    "\<forall>e\<in>set n4. url (fst e) = space_url (ValueString (ID data)) ''variables''"
    "d4 = None \<longrightarrow> d3 = None" by blast
  from hardware_stage_calls [OF s5] obtain n5 where 5: "tr5 = tr4 @ n5"
    "\<forall>e\<in>set n5. url (fst e) = space_url (ValueString (ID data)) ''hardware''" by blast
  from storage_stage_calls [OF s6] obtain n6 where 6: "tr6 = tr5 @ n6"
    "\<forall>e\<in>set n6. url (fst e) = space_url (ValueString (ID data)) ''storage''" by blast
  from sleeptime_stage_calls [OF s7] obtain n7 where 7: "tr7 = tr6 @ n7"
    "\<forall>e\<in>set n7. url (fst e) = space_url (ValueString (ID data)) ''sleeptime''" by blast
  have calls: "calls (Update cl data state) = n1 @ n2 @ n3 @ n4 @ n5 @ n6 @ n7"
    by (simp add: Update_fields run 1(1) 2(1) 3(1) 4(1) 5(1) 6(1) 7(1))
  have "(?hw, res) \<notin> set n1" "(?hw, res) \<notin> set n2" "(?hw, res) \<notin> set n3"
    "(?hw, res) \<notin> set n4" "(?hw, res) \<notin> set n6" "(?hw, res) \<notin> set n7"
    using 1(2) 2(2) 3(2) 4(2) 6(2) 7(2) by fastforce+
  with assms(2) have in5: "(?hw, res) \<in> set n5"
    unfolding calls by simp
  from hardware_stage_call [OF s5] obtain new where
    h: "tr5 = tr4 @ new"
      "new \<noteq> [] \<longrightarrow> d4 = None \<and> new = [(?hw, cl tr4 ?hw)] \<and>
         (cl tr4 ?hw = TransportError \<longrightarrow> d5 = Some (ClientError UpdateHardware)) \<and>
         (\<forall>s b. cl tr4 ?hw = Response s b \<and> s \<noteq> StatusOK \<longrightarrow> d5 = Some (APIError UpdateHardware s))"
      "d5 \<noteq> None \<longrightarrow> st5 = st4"
    by blast
  from h(1) 5(1) have nn: "new = n5" by simp
  with in5 have "new \<noteq> []" by auto
  with h(2) have hh: "d4 = None" "new = [(?hw, cl tr4 ?hw)]"
    "cl tr4 ?hw = TransportError \<longrightarrow> d5 = Some (ClientError UpdateHardware)"
    "\<forall>s b. cl tr4 ?hw = Response s b \<and> s \<noteq> StatusOK \<longrightarrow> d5 = Some (APIError UpdateHardware s)"
    by blast+
  from in5 nn hh(2) have "(?hw, res) \<in> set [(?hw, cl tr4 ?hw)]" by simp
  then have res: "cl tr4 ?hw = res" by simp
  have n5: "n5 = [(?hw, res)]" "d4 = None"
    "res = TransportError \<longrightarrow> d5 = Some (ClientError UpdateHardware)"
    "\<forall>s b. res = Response s b \<and> s \<noteq> StatusOK \<longrightarrow> d5 = Some (APIError UpdateHardware s)"
    using hh nn unfolding res by simp_all
  from assms(3) n5(3,4)
  have d5: "d5 = Some (case res of TransportError \<Rightarrow> ClientError UpdateHardware
                       | Response s b \<Rightarrow> APIError UpdateHardware s)"
    by auto
  with h(3) have st5: "st5 = st4" by simp
  from s6 d5 have a6: "tr6 = tr5" "st6 = st5" "d6 = d5"
    using stage_aborted [of tr5 st5 _ "storage_step cl data" tr6 st6 d6] by auto
  from s7 d5 a6 have a7: "tr7 = tr6" "st7 = st6" "d7 = d5"
    using stage_aborted [of tr6 st6 _ "sleeptime_step cl data" tr7 st7 d7] by auto
  from a6 a7 6(1) 7(1) have e67: "n6 = []" "n7 = []" by simp_all
  from n5(2) 4(3) 3(3) 2(3) have d: "d3 = None" "d2 = None" "d1 = None" by simp_all
  from s1 d(3) have s1': "and_then ([], state, None) (rename_step cl data) = (tr1, st1, None)"
    by simp
  from rename_stage_drift [OF s1' assms(1)] obtain b where
    mv: "tr1 = [] @ [(?mv, Response StatusOK b)]" by blast
  from rename_stage [OF s1'] assms(1) have st1: "st1 = state\<lparr>ID := TfValue ?target, Name := Name data\<rparr>"
    by (elim exE conjE) simp
  from visibility_stage_frame [OF s2] have st2: "st2 = st1" .
  from secrets_stage_frame [OF s3] obtain sec where st3: "st3 = st2\<lparr>Secrets := sec\<rparr>" by blast
  from variables_stage_frame [OF s4] obtain var where st4: "st4 = st3\<lparr>Variables := var\<rparr>" by blast
  have w: "working (Update cl data state) = st7" "diagnostic (Update cl data state) = d7"
    by (simp_all add: Update_fields run)
  have a: "diagnostic (Update cl data state) =
       Some (case res of TransportError \<Rightarrow> ClientError UpdateHardware
                       | Response s b \<Rightarrow> APIError UpdateHardware s)"
    by (simp add: w a7 d5)
  have b: "resp_state (Update cl data state) = None"
    by (simp add: Update_fields run a7 d5)
  have c: "last (calls (Update cl data state)) = (?hw, res)"
    by (simp add: calls e67 n5(1))
  from mv 1(1) have "n1 = [(?mv, Response StatusOK b)]" by simp
  then have dd: "\<exists>b rest. calls (Update cl data state) = (?mv, Response StatusOK b) # rest"
    by (simp add: calls)
  have e: "\<forall>e\<in>set (calls (Update cl data state)).
        url (fst e) \<noteq> space_url (ValueString (ID data)) ''storage'' \<and>
        url (fst e) \<noteq> space_url (ValueString (ID data)) ''sleeptime''"
    unfolding calls e67 using 1(2) 2(2) 3(2) 4(2) 5(2) by auto
  have f: "ID (working (Update cl data state)) = TfValue ?target"
    "Name (working (Update cl data state)) = Name data"
    by (simp_all add: w a7 a6 st5 st4 st3 st2 st1)
  from a b c dd e f show ?thesis by blast
qed

text \<open>
  C6 as stated fails in its last part: after a successful rename and a hardware call
  answered 500, \<open>Update\<close> returns on the diagnostic before line 646, so no state is set and
  nothing that is handed back carries the new identifier.
\<close>

theorem Update_hardware_failure_counterexample:
  "diagnostic (Update hardware_down plan_rename_hardware space0) =
     Some (APIError UpdateHardware 500) \<and>
   resp_state (Update hardware_down plan_rename_hardware space0) = None \<and>
   map (\<lambda>e. (url (fst e), snd e)) (calls (Update hardware_down plan_rename_hardware space0)) =
     [(''https://huggingface.co/api/repos/move'', Response 200 (BodyJSON (JObject []))),
      (''https://huggingface.co/api/spaces/alice/demo/hardware'', Response 500 BodyNotJSON)]"
  by (simp add: Update_def Update_run_def step_defs StatusOK_def hardware_down_def
      plan_rename_hardware_def space0_def Request_def space_url_def move_url_def Let_def)

theorem Update_hardware_failure_after_rename_witness:
  "ValueString (Name space0) \<noteq> ValueString (Name plan_rename_hardware) \<and>
   (Request POST ''https://huggingface.co/api/spaces/alice/demo/hardware'' (hardware_body ''t4-small''),
      Response 500 BodyNotJSON) \<in> set (calls (Update hardware_down plan_rename_hardware space0)) \<and>
   500 \<noteq> StatusOK \<and>
   last (calls (Update hardware_down plan_rename_hardware space0)) =
     (Request POST ''https://huggingface.co/api/spaces/alice/demo/hardware'' (hardware_body ''t4-small''),
      Response 500 BodyNotJSON) \<and>
   ID (working (Update hardware_down plan_rename_hardware space0)) = TfValue ''alice/renamed'' \<and>
   Name (working (Update hardware_down plan_rename_hardware space0)) = TfValue ''renamed''"
proof -
  have h1: "ValueString (Name space0) \<noteq> ValueString (Name plan_rename_hardware)"
    by (simp add: plan_rename_hardware_def space0_def)
  have v: "space_url (ValueString (ID plan_rename_hardware)) ''hardware'' =
       ''https://huggingface.co/api/spaces/alice/demo/hardware''"
    "hardware_body (ValueString (Hardware plan_rename_hardware)) = hardware_body ''t4-small''"
    "move_target (ValueString (ID space0)) (ValueString (Name plan_rename_hardware)) = ''alice/renamed''"
    "Name plan_rename_hardware = TfValue ''renamed''"
    "move_target (ValueString (ID space0)) ''renamed'' = ''alice/renamed''"
    "ValueString (Name space0) = ''demo''"
    by (simp_all add: plan_rename_hardware_def space0_def space_url_def move_target_def)
  have h2: "(Request POST (space_url (ValueString (ID plan_rename_hardware)) ''hardware'')
            (hardware_body (ValueString (Hardware plan_rename_hardware))), Response 500 BodyNotJSON)
          \<in> set (calls (Update hardware_down plan_rename_hardware space0))"
    unfolding v
    by (simp add: Update_def Update_run_def step_defs StatusOK_def hardware_down_def
      plan_rename_hardware_def space0_def Request_def space_url_def move_url_def Let_def)
  have h3: "Response 500 BodyNotJSON = TransportError \<or>
      (\<exists>s b. Response 500 BodyNotJSON = Response s b \<and> s \<noteq> StatusOK)"
    by (simp add: StatusOK_def)
  note th = Update_hardware_failure_after_rename [OF h1 h2 h3]
  from th have c3: "last (calls (Update hardware_down plan_rename_hardware space0)) =
       (Request POST (space_url (ValueString (ID plan_rename_hardware)) ''hardware'')
          (hardware_body (ValueString (Hardware plan_rename_hardware))), Response 500 BodyNotJSON)"
    by blast
  from th have c6: "ID (working (Update hardware_down plan_rename_hardware space0)) =
       TfValue (move_target (ValueString (ID space0)) (ValueString (Name plan_rename_hardware)))"
    by blast
  from th have c7: "Name (working (Update hardware_down plan_rename_hardware space0)) =
       Name plan_rename_hardware"
    by blast
  from h1 h2 c3 c6 c7 show ?thesis
    by (simp add: v StatusOK_def)
qed

subsection \<open>C7\<close>



subsection \<open>C8\<close>




subsection \<open>C9\<close>

text \<open>
  C9.  \<open>Create\<close> returns the diagnostic "Invalid Response" exactly when the creation call
  was answered 200 with a body that decodes to a map in which \<open>name\<close> is missing or is not
  a string.  When \<open>Create\<close> sets a state, the creation response carried a string \<open>name\<close>,
  and the state is the plan with that name as its identifier.
\<close>

theorem Create_response_shape:
  "(failure (Create cl data) = Some InvalidResponse \<longleftrightarrow>
      (\<exists>rbody responseData.
         cl [] (create_request data) = Response StatusOK rbody \<and>
         decode_object rbody = Some responseData \<and>
         (\<forall>s. map_of responseData ''name'' \<noteq> Some (JString s)))) \<and>
   (\<forall>st. new_state (Create cl data) = Some st \<longrightarrow>
      (\<exists>rbody responseData spaceName.
         cl [] (create_request data) = Response StatusOK rbody \<and>
         decode_object rbody = Some responseData \<and>
         map_of responseData ''name'' = Some (JString spaceName) \<and>
         st = data\<lparr>ID := TfValue spaceName\<rparr> \<and> ID st = TfValue spaceName))"
proof -
  let ?req = "create_request data"
  let ?tr = "[(?req, cl [] ?req)]"
  show ?thesis
  proof (cases "cl [] ?req")
    case TransportError
    then have "Create cl data = failed ?tr (ClientError CreateSpace)"
      by (simp add: Create_def send_def)
    with TransportError show ?thesis by (simp add: failed_def)
  next
    case (Response status rbody)
    show ?thesis
    proof (cases "status = StatusOK")
      case False
      with Response have "Create cl data = failed ?tr (APIError CreateSpace status)"
        by (simp add: Create_def send_def)
      with False Response show ?thesis by (simp add: failed_def)
    next
      case True
      show ?thesis
      proof (cases "decode_object rbody")
        case None
        with True Response have "Create cl data = failed ?tr (JSONDecodeError CreateSpace)"
          by (simp add: Create_def send_def)
        with None True Response show ?thesis by (simp add: failed_def)
      next
        case dec: (Some responseData)
        show ?thesis
        proof (cases "name_of_response responseData")
          case None
          have no: "\<forall>s. map_of responseData ''name'' \<noteq> Some (JString s)"
            using None name_of_response_None [of responseData] by blast
          from None dec True Response have "Create cl data = failed ?tr InvalidResponse"
            by (simp add: Create_def send_def)
          with no dec True Response show ?thesis
            by (simp add: failed_def)
        next
          case (Some spaceName)
          have nm: "map_of responseData ''name'' = Some (JString spaceName)"
            using Some name_of_response_Some [of responseData spaceName] by blast
          have c: "Create cl data = create_entries cl ?tr (data\<lparr>ID := TfValue spaceName\<rparr>)"
            using Some dec True Response
            by (simp add: Create_def send_def)
          have a: "failure (Create cl data) \<noteq> Some InvalidResponse"
            unfolding c by (rule create_entries_result(1))
          have b: "\<forall>st. new_state (Create cl data) = Some st \<longrightarrow> st = data\<lparr>ID := TfValue spaceName\<rparr>"
            unfolding c using create_entries_result(2) by blast
          from a b nm dec True Response
          show ?thesis by auto
        qed
      qed
    qed
  qed
qed

theorem Create_response_shape_witness:
  "new_state (Create naming_client plan_new) = Some (plan_new\<lparr>ID := TfValue ''alice/demo''\<rparr>) \<and>
   map_option ID (new_state (Create naming_client plan_new)) = Some (TfValue ''alice/demo'') \<and>
   failure (Create ok_client plan_new) = Some InvalidResponse"
proof -
  have e: "new_state (Create naming_client plan_new) = Some (plan_new\<lparr>ID := TfValue ''alice/demo''\<rparr>)"
    by (simp add: Create_def create_entries_def send_def naming_client_def StatusOK_def
        plan_new_def space0_def)
  have o: "ok_client [] (create_request plan_new) = Response StatusOK (BodyJSON (JObject []))"
    "decode_object (BodyJSON (JObject [])) = Some []"
    "\<forall>s. map_of ([] :: json gomap) ''name'' \<noteq> Some (JString s)"
    by (simp_all add: ok_client_def StatusOK_def)
  from Create_response_shape [of ok_client plan_new] o
  have f: "failure (Create ok_client plan_new) = Some InvalidResponse"
    by blast
  from e f show ?thesis by simp
qed

subsection \<open>C10\<close>

text \<open>
  C10.  \<open>Update\<close> never reads the SDK or the template of the plan: the whole result is the
  same whatever they are, so a drift in them causes no call; the working copy and any state
  that is set keep the SDK and the template of the prior state; and every call goes to one
  of the seven addresses of the rename, the visibility, the secrets, the variables, the
  hardware, the storage and the sleep time.
\<close>

theorem Update_ignores_SDK_Template:
  "Update cl (data\<lparr>SDK := s, Template := t\<rparr>) state = Update cl data state \<and>
   SDK (working (Update cl data state)) = SDK state \<and>
   Template (working (Update cl data state)) = Template state \<and>
   (\<forall>st. resp_state (Update cl data state) = Some st \<longrightarrow>
      SDK st = SDK state \<and> Template st = Template state) \<and>
   (\<forall>e\<in>set (calls (Update cl data state)).
      url (fst e) = move_url \<or>
      url (fst e) = space_url (ValueString (ID data)) ''settings'' \<or>
      url (fst e) = space_url (ValueString (ID data)) ''secrets'' \<or>
      url (fst e) = space_url (ValueString (ID data)) ''variables'' \<or>
      url (fst e) = space_url (ValueString (ID data)) ''hardware'' \<or>
      url (fst e) = space_url (ValueString (ID data)) ''storage'' \<or>
      url (fst e) = space_url (ValueString (ID data)) ''sleeptime'')"
proof -
  obtain tr st d where run: "Update_run cl data state = (tr, st, d)"
    using prod_cases3 by blast
  have a: "Update cl (data\<lparr>SDK := s, Template := t\<rparr>) state = Update cl data state"
    by (simp add: Update_def Update_run_def step_ignores_SDK_Template)
  from Update_run_frame [OF run] have b: "SDK st = SDK state" "Template st = Template state"
    by auto
  have w: "working (Update cl data state) = st" "calls (Update cl data state) = tr"
    by (simp_all add: Update_fields run)
  have c: "\<forall>st'. resp_state (Update cl data state) = Some st' \<longrightarrow>
      SDK st' = SDK state \<and> Template st' = Template state"
    using resp_state_working [of cl data state] b w by auto
  have d: "\<forall>e\<in>set (calls (Update cl data state)).
      url (fst e) = move_url \<or>
      url (fst e) = space_url (ValueString (ID data)) ''settings'' \<or>
      url (fst e) = space_url (ValueString (ID data)) ''secrets'' \<or>
      url (fst e) = space_url (ValueString (ID data)) ''variables'' \<or>
      url (fst e) = space_url (ValueString (ID data)) ''hardware'' \<or>
      url (fst e) = space_url (ValueString (ID data)) ''storage'' \<or>
      url (fst e) = space_url (ValueString (ID data)) ''sleeptime''"
    unfolding w using Update_run_urls [OF run] by blast
  from a b c d w show ?thesis by simp
qed

theorem Update_ignores_SDK_Template_witness:
  "calls (Update ok_client plan_sdk space0) = [] \<and>
   resp_state (Update ok_client plan_sdk space0) = Some space0 \<and>
   SDK space0 = TfValue ''gradio'' \<and> SDK plan_sdk = TfValue ''docker''"
proof -
  have "Update ok_client plan_sdk space0 = Update ok_client space0 space0"
    using Update_ignores_SDK_Template [where cl = ok_client and data = space0 and state = space0
        and s = "TfValue ''docker''" and t = "TfValue ''blank''"]
    by (simp add: plan_sdk_def)
  then show ?thesis
    by (simp add: eval_defs plan_sdk_def)
qed

end
